theory Spec2Isabelle
  imports Complex_Main
begin

section \<open>The host: strings, numbers, dates\<close>

text \<open>
  The services are TypeScript running in a browser.  What they take from the host is
  modelled here once, with the choices written down:
  \<^item> a string is a list of 8-bit characters, read as the code units below 256;
  \<^item> a number is a double (IEEE 754, 64 bits): a real with a significand of 53 bits, or
    the not-a-number value (\<open>None\<close>); a sum, a difference, a product and a quotient are
    the exact result rounded to the nearest double, ties to the even significand;
  \<^item> a \<open>Date\<close> is a time value, a whole number of milliseconds (\<open>int\<close>) of
    magnitude at most 8.64e15, or the invalid date (\<open>None\<close>);
  \<^item> local time is UTC plus one fixed offset of the host, and the clock is read as one
    instant for the whole turn;
  \<^item> what the \<open>Date\<close> constructor makes of a string, and what \<open>JSON.parse\<close> makes
    of one, are parameters.
  An exception is a value: a function that can raise returns \<open>error + 'a\<close>.
\<close>

datatype error = TypeError | RangeError

type_synonym jsdate = "int option"

subsection \<open>Strings\<close>

definition toLowerChar :: "char \<Rightarrow> char" where
  "toLowerChar c =
     (let n = (of_char c :: nat)
      in if (65 \<le> n \<and> n \<le> 90) \<or> (192 \<le> n \<and> n \<le> 222 \<and> n \<noteq> 215)
         then char_of (n + 32) else c)"

definition toUpperChar :: "char \<Rightarrow> char" where
  "toUpperChar c =
     (let n = (of_char c :: nat)
      in if 97 \<le> n \<and> n \<le> 122 then char_of (n - 32) else c)"

definition toLowerCase :: "string \<Rightarrow> string" where
  "toLowerCase s = map toLowerChar s"

fun startsWith :: "string \<Rightarrow> string \<Rightarrow> bool" where
  "startsWith s [] = True"
| "startsWith [] (y # ys) = False"
| "startsWith (x # xs) (y # ys) = (x = y \<and> startsWith xs ys)"

fun includesStr :: "string \<Rightarrow> string \<Rightarrow> bool" where
  "includesStr [] sub = (sub = [])"
| "includesStr (x # xs) sub = (startsWith (x # xs) sub \<or> includesStr xs sub)"

text \<open>Truthiness of an optional string: \<open>undefined\<close> and the empty string are falsy.\<close>

fun truthy :: "string option \<Rightarrow> bool" where
  "truthy None = False"
| "truthy (Some s) = (s \<noteq> [])"

text \<open>\<open>a || b\<close> on optional strings.\<close>

definition orElse :: "string option \<Rightarrow> string option \<Rightarrow> string option" where
  "orElse a b = (if truthy a then a else b)"

text \<open>
  \<open>parseInt\<close>: the value of the leading decimal digits, not-a-number when there is
  none.  The strings parsed here are capture groups of digits, so the blanks, the sign and
  the radix prefix that \<open>parseInt\<close> also reads are left out.
\<close>

definition isDigit :: "char \<Rightarrow> bool" where
  "isDigit c = (c \<in> set ''0123456789'')"

definition digitValue :: "char \<Rightarrow> nat" where
  "digitValue c = of_char c - 48"

definition parseInt :: "string \<Rightarrow> nat option" where
  "parseInt s =
     (let ds = takeWhile isDigit s
      in if ds = [] then None else Some (foldl (\<lambda>acc c. 10 * acc + digitValue c) 0 ds))"

subsection \<open>Regular expressions\<close>

text \<open>
  \<open>String.prototype.match\<close> with a pattern that has no \<open>g\<close> flag returns the leftmost
  match, found by backtracking with greedy quantifiers, and the text of each capture
  group (\<open>undefined\<close> for a group that took no part).  \<open>run\<close> lists the ways a pattern
  matches at the front of the input, in the order the backtracking tries them: each is
  the input left over and the captures so far.
\<close>

datatype rx =
    Eps
  | Cls "char list"
  | Seq rx rx
  | Alt rx rx
  | Star rx
  | Cap nat rx
  | NCls "char list"
  | Eol

type_synonym captures = "string option list"

fun run :: "rx \<Rightarrow> string \<times> captures \<Rightarrow> (string \<times> captures) list" where
  "run Eps st = [st]"
| "run (Cls cs) (s, c) =
     (case s of [] \<Rightarrow> [] | x # t \<Rightarrow> if x \<in> set cs then [(t, c)] else [])"
| "run (Seq a b) st = concat (map (\<lambda>st'. run b st') (run a st))"
| "run (Alt a b) st = run a st @ run b st"
| "run (Star a) (s, c) =
     concat (map (\<lambda>(s', c'). if length s' < length s then run (Star a) (s', c') else [])
                 (run a (s, c))) @ [(s, c)]"
| "run (Cap n a) (s, c) =
     map (\<lambda>(s', c'). (s', c'[n := Some (take (length s - length s') s)])) (run a (s, c))"
| "run (NCls cs) (s, c) =
     (case s of [] \<Rightarrow> [] | x # t \<Rightarrow> if x \<notin> set cs then [(t, c)] else [])"
| "run Eol (s, c) = (if s = [] then [(s, c)] else [])"

text \<open>
  The equation for \<open>Star\<close> rewrites its own right-hand side, so it is not a
  simplification rule.
\<close>

declare run.simps(5) [simp del]

text \<open>The leftmost match: the first way at the first position that has one.\<close>

fun rxMatch :: "rx \<Rightarrow> nat \<Rightarrow> string \<Rightarrow> captures option" where
  "rxMatch r n [] =
     (case run r ([], replicate (Suc n) None) of [] \<Rightarrow> None | (_, c) # _ \<Rightarrow> Some c)"
| "rxMatch r n (x # t) =
     (case run r (x # t, replicate (Suc n) None) of
        [] \<Rightarrow> rxMatch r n t
      | (_, c) # _ \<Rightarrow> Some c)"

text \<open>A capture group by its number; a group that took no part is \<open>undefined\<close>.\<close>

definition grp :: "captures \<Rightarrow> nat \<Rightarrow> string option" where
  "grp c n = (if n < length c then c ! n else None)"

definition opt :: "rx \<Rightarrow> rx" where
  "opt r = Alt r Eps"

fun seqs :: "rx list \<Rightarrow> rx" where
  "seqs [] = Eps"
| "seqs [r] = r"
| "seqs (r # rs) = Seq r (seqs rs)"

fun alts :: "rx list \<Rightarrow> rx" where
  "alts [] = Cls []"
| "alts [r] = r"
| "alts (r # rs) = Alt r (alts rs)"

definition digit :: rx where
  "digit = Cls ''0123456789''"

text \<open>
  \<^verbatim>\<open>\s\<close>, below 256: tab, line feed, vertical tab, form feed, carriage return, space,
  no-break space.
\<close>

definition spaceChars :: "char list" where
  "spaceChars = [char_of (9::nat), char_of (10::nat), char_of (11::nat), char_of (12::nat),
                 char_of (13::nat), char_of (32::nat), char_of (160::nat)]"

definition space :: rx where
  "space = Cls spaceChars"

text \<open>\<open>test\<close> with a pattern that begins with \<open>^\<close>: a match at the first position.\<close>

definition rxTestAnchored :: "rx \<Rightarrow> string \<Rightarrow> bool" where
  "rxTestAnchored r s = (run r (s, [None]) \<noteq> [])"

text \<open>A literal under the \<open>i\<close> flag: each character in either case.\<close>

fun lit :: "string \<Rightarrow> rx" where
  "lit [] = Eps"
| "lit [x] = Cls [toLowerChar x, toUpperChar x]"
| "lit (x # xs) = Seq (Cls [toLowerChar x, toUpperChar x]) (lit xs)"

subsection \<open>Dates\<close>

text \<open>The civil date of a day number (days since 1970-01-01), proleptic Gregorian.\<close>

definition civilFromDays :: "int \<Rightarrow> int \<times> int \<times> int" where
  "civilFromDays z0 =
     (let z = z0 + 719468;
          era = z div 146097;
          doe = z - era * 146097;
          yoe = (doe - doe div 1460 + doe div 36524 - doe div 146096) div 365;
          doy = doe - (365 * yoe + yoe div 4 - yoe div 100);
          mp = (5 * doy + 2) div 153;
          d = doy - (153 * mp + 2) div 5 + 1;
          m = (if mp < 10 then mp + 3 else mp - 9);
          y = yoe + era * 400 + (if m \<le> 2 then 1 else 0)
      in (y, m, d))"

definition daysFromCivil :: "int \<Rightarrow> int \<Rightarrow> int \<Rightarrow> int" where
  "daysFromCivil y0 m d =
     (let y = (if m \<le> 2 then y0 - 1 else y0);
          era = y div 400;
          yoe = y - era * 400;
          doy = (153 * (if m > 2 then m - 3 else m + 9) + 2) div 5 + d - 1;
          doe = yoe * 365 + yoe div 4 - yoe div 100 + doy
      in era * 146097 + doe - 719468)"

fun digitsOf :: "nat \<Rightarrow> nat \<Rightarrow> string" where
  "digitsOf 0 n = []"
| "digitsOf (Suc k) n = digitsOf k (n div 10) @ [char_of (48 + n mod 10)]"

text \<open>\<open>pad k n\<close>: the last \<open>k\<close> decimal digits of \<open>n\<close>, zero-padded.\<close>

definition pad :: "nat \<Rightarrow> int \<Rightarrow> string" where
  "pad k n = digitsOf k (nat n)"

definition isoYear :: "int \<Rightarrow> string" where
  "isoYear y =
     (if 0 \<le> y \<and> y \<le> 9999 then pad 4 y
      else if y < 0 then ''-'' @ pad 6 (- y) else ''+'' @ pad 6 y)"

definition msPerDay :: int where
  "msPerDay = 86400000"

text \<open>
  The largest time value that a \<open>Date\<close> holds; an instant beyond it is the invalid date.
\<close>

definition maxTime :: int where
  "maxTime = 8640000000000000"

definition timeClip :: "int \<Rightarrow> jsdate" where
  "timeClip t = (if \<bar>t\<bar> \<le> maxTime then Some t else None)"

text \<open>\<open>toISOString\<close> of a valid date: its UTC date and time.\<close>

definition isoString :: "int \<Rightarrow> string" where
  "isoString t =
     (let ms = t mod msPerDay
      in case civilFromDays (t div msPerDay) of (y, m, d) \<Rightarrow>
           isoYear y @ ''-'' @ pad 2 m @ ''-'' @ pad 2 d @ ''T''
           @ pad 2 (ms div 3600000) @ '':'' @ pad 2 (ms mod 3600000 div 60000) @ '':''
           @ pad 2 (ms mod 60000 div 1000) @ ''.'' @ pad 3 (ms mod 1000) @ ''Z'')"

text \<open>\<open>toISOString\<close> raises a \<open>RangeError\<close> on the invalid date.\<close>

fun toISOString :: "jsdate \<Rightarrow> error + string" where
  "toISOString None = Inl RangeError"
| "toISOString (Some t) = Inr (isoString t)"

text \<open>
  The host of one turn: the instant the clock shows, the offset of local time from UTC in
  milliseconds, the name of the time zone, and what the \<open>Date\<close> constructor makes of a
  string (\<open>None\<close> for the invalid date).
\<close>

record host =
  now :: int
  tzOffset :: int
  tzName :: string
  dateParse :: "string \<Rightarrow> int option"

definition getLocalNow :: "host \<Rightarrow> int" where
  "getLocalNow h = now h"

definition localDay :: "host \<Rightarrow> int \<Rightarrow> int" where
  "localDay h t = (t + tzOffset h) div msPerDay"

definition getLocalToday :: "host \<Rightarrow> int" where
  "getLocalToday h = localDay h (getLocalNow h) * msPerDay - tzOffset h"

definition getHours :: "host \<Rightarrow> int \<Rightarrow> int" where
  "getHours h t = ((t + tzOffset h) mod msPerDay) div 3600000"

definition getMinutes :: "host \<Rightarrow> int \<Rightarrow> int" where
  "getMinutes h t = ((t + tzOffset h) mod 3600000) div 60000"

text \<open>\<open>setHours(hour, minute, 0, 0)\<close>: the same local day, at the given local time.\<close>

definition setHours :: "host \<Rightarrow> int \<Rightarrow> int \<Rightarrow> int \<Rightarrow> int" where
  "setHours h t hour minute =
     localDay h t * msPerDay + hour * 3600000 + minute * 60000 - tzOffset h"

text \<open>\<open>setDate(getDate() + k)\<close>: the same local time, \<open>k\<close> days later.\<close>

definition addDays :: "int \<Rightarrow> int \<Rightarrow> int" where
  "addDays t k = t + k * msPerDay"

section \<open>The data model\<close>

record EventTime =
  dateTime :: "string option"
  date :: "string option"
  timeZone :: "string option"

record Attendee =
  email :: string
  displayName :: "string option"

record CalendarEvent =
  id' :: string
  summary :: string
  description :: "string option"
  start :: EventTime
  end' :: EventTime
  attendees :: "Attendee list option"
  location :: "string option"

text \<open>\<open>new Date(s)\<close> on a string.\<close>

definition newDate :: "host \<Rightarrow> string \<Rightarrow> jsdate" where
  "newDate h s = Option.bind (dateParse h s) timeClip"

section \<open>Time, duration and range parsing\<close>

text \<open>\<^verbatim>\<open>/(\d{1,2})(?::(\d{2}))?\s*(am|pm)?/i\<close>\<close>

definition timePattern :: rx where
  "timePattern =
     seqs [Cap 1 (Seq digit (opt digit)),
           opt (Seq (Cls '':'') (Cap 2 (Seq digit digit))),
           Star space,
           opt (Cap 3 (Alt (lit ''am'') (lit ''pm'')))]"

text \<open>
  The two lines that follow every clock-time match:
  \<^verbatim>\<open>if (period?.toLowerCase() === 'pm' && hour !== 12) hour += 12;\<close>
  \<^verbatim>\<open>if (period?.toLowerCase() === 'am' && hour === 12) hour = 0;\<close>
\<close>

definition meridiem :: "string option \<Rightarrow> nat \<Rightarrow> nat" where
  "meridiem period hour =
     (let hour1 = (if map_option toLowerCase period = Some ''pm'' \<and> hour \<noteq> 12
                   then hour + 12 else hour)
      in if map_option toLowerCase period = Some ''am'' \<and> hour1 = 12 then 0 else hour1)"

text \<open>\<open>minutes ? parseInt(minutes) : 0\<close>\<close>

definition minuteOf :: "string option \<Rightarrow> nat option" where
  "minuteOf minutes =
     (case minutes of
        None \<Rightarrow> Some 0
      | Some ms \<Rightarrow> if ms \<noteq> [] then parseInt ms else Some 0)"

text \<open>\<open>date.setHours(hour, minute, 0, 0)\<close> with numbers that may be not-a-number.\<close>

definition setHoursNum :: "host \<Rightarrow> int \<Rightarrow> nat option \<Rightarrow> nat option \<Rightarrow> jsdate" where
  "setHoursNum h t hour minute =
     (case (hour, minute) of
        (Some hr, Some mi) \<Rightarrow> Some (setHours h t (int hr) (int mi))
      | _ \<Rightarrow> None)"

definition parseTimeForDate :: "host \<Rightarrow> string \<Rightarrow> int \<Rightarrow> jsdate" where
  "parseTimeForDate h dateTimeStr baseDate =
     (case rxMatch timePattern 3 dateTimeStr of
        Some m \<Rightarrow>
          (let hours = grp m 1; minutes = grp m 2; period = grp m 3;
               hour = map_option (meridiem period) (Option.bind hours parseInt);
               minute = minuteOf minutes
           in setHoursNum h baseDate hour minute)
      | None \<Rightarrow> Some baseDate)"

definition parseDateTime :: "host \<Rightarrow> string \<Rightarrow> jsdate" where
  "parseDateTime h dateTimeStr =
     (let now = getLocalNow h
      in if includesStr (toLowerCase dateTimeStr) ''today''
         then parseTimeForDate h dateTimeStr now
         else if includesStr (toLowerCase dateTimeStr) ''tomorrow''
         then parseTimeForDate h dateTimeStr (addDays now 1)
         else case newDate h dateTimeStr of
                Some parsed \<Rightarrow> Some parsed
              | None \<Rightarrow>
                  (case rxMatch timePattern 3 dateTimeStr of
                     Some timeMatch \<Rightarrow> parseTimeForDate h dateTimeStr now
                   | None \<Rightarrow> Some now))"

text \<open>\<^verbatim>\<open>/(\d+)\s*(minutes?|hours?|mins?|hrs?|h|m)/i\<close>\<close>

definition durationPattern :: rx where
  "durationPattern =
     seqs [Cap 1 (Seq digit (Star digit)),
           Star space,
           Cap 2 (alts [Seq (lit ''minute'') (opt (lit ''s'')),
                        Seq (lit ''hour'') (opt (lit ''s'')),
                        Seq (lit ''min'') (opt (lit ''s'')),
                        Seq (lit ''hr'') (opt (lit ''s'')),
                        lit ''h'',
                        lit ''m''])]"

text \<open>
  The result is a number of minutes, not-a-number when \<open>parseInt\<close> finds no digit;
  \<open>unit.toLowerCase()\<close> raises when the unit is \<open>undefined\<close>.
\<close>

definition parseDurationToMinutes :: "string \<Rightarrow> error + nat option" where
  "parseDurationToMinutes duration =
     (case rxMatch durationPattern 2 duration of
        None \<Rightarrow> Inr (Some 60)
      | Some m \<Rightarrow>
          (let amount = grp m 1; unit = grp m 2;
               val = Option.bind amount parseInt
           in case unit of
                None \<Rightarrow> Inl TypeError
              | Some u \<Rightarrow>
                  if startsWith (toLowerCase u) ''h''
                  then Inr (map_option (\<lambda>v. v * 60) val)
                  else Inr val))"

text \<open>
  \<^verbatim>\<open>/(\d{1,2})(?::(\d{2}))?\s*(am|pm)?\s*-\s*(\d{1,2})(?::(\d{2}))?\s*(am|pm)?/i\<close>
\<close>

definition rangePattern :: rx where
  "rangePattern =
     seqs [Cap 1 (Seq digit (opt digit)),
           opt (Seq (Cls '':'') (Cap 2 (Seq digit digit))),
           Star space,
           opt (Cap 3 (Alt (lit ''am'') (lit ''pm''))),
           Star space, Cls ''-'', Star space,
           Cap 4 (Seq digit (opt digit)),
           opt (Seq (Cls '':'') (Cap 5 (Seq digit digit))),
           Star space,
           opt (Cap 6 (Alt (lit ''am'') (lit ''pm'')))]"

definition parseTimeRange :: "host \<Rightarrow> string \<Rightarrow> int \<Rightarrow> jsdate \<times> jsdate" where
  "parseTimeRange h timeRange d =
     (case rxMatch rangePattern 6 timeRange of
        Some m \<Rightarrow>
          (let startHours = grp m 1; startMinutes = grp m 2; startPeriod = grp m 3;
               endHours = grp m 4; endMinutes = grp m 5; endPeriod = grp m 6;
               startHour = map_option (meridiem startPeriod) (Option.bind startHours parseInt);
               startMinute = minuteOf startMinutes;
               endHour = map_option (meridiem endPeriod) (Option.bind endHours parseInt);
               endMinute = minuteOf endMinutes
           in (setHoursNum h d startHour startMinute, setHoursNum h d endHour endMinute))
      | None \<Rightarrow>
          (let (startHour, endHour) =
                 (if toLowerCase timeRange = ''morning'' then (8, 12)
                  else if toLowerCase timeRange = ''afternoon'' then (12, 17)
                  else if toLowerCase timeRange = ''evening'' then (17, 21)
                  else (9, 17))
           in (Some (setHours h d startHour 0), Some (setHours h d endHour 0))))"

section \<open>Event resolution\<close>

text \<open>
  The text of a reply is a presentation matter; a reply is modelled by the message it
  renders and the values that go into it.  \<open>EventOptions es label\<close> is the text of
  \<open>formatEventOptions(es, label)\<close>, which lists every event of \<open>es\<close> with its title,
  date, time, identifier and location.
\<close>

datatype message =
    PleaseSpecify
  | FoundEvent string
  | EventOptions "CalendarEvent list" string
  | CouldNotFind string

datatype resolution =
    Found string message
  | MultipleFound message
  | NotFound message

text \<open>Strict equality of two numbers: not-a-number equals nothing.\<close>

fun numEq :: "int option \<Rightarrow> int option \<Rightarrow> bool" where
  "numEq (Some a) (Some b) = (a = b)"
| "numEq _ _ = False"

definition findEventsByTime :: "host \<Rightarrow> string \<Rightarrow> CalendarEvent list \<Rightarrow> CalendarEvent list" where
  "findEventsByTime h searchQuery events =
     (case rxMatch timePattern 3 searchQuery of
        None \<Rightarrow> []
      | Some m \<Rightarrow>
          (let hours = grp m 1; minutes = grp m 2; period = grp m 3;
               searchHour = map_option (meridiem period) (Option.bind hours parseInt);
               searchMinute = minuteOf minutes
           in filter (\<lambda>event.
                 truthy (dateTime (start event)) \<and>
                 (let eventDate = Option.bind (dateTime (start event)) (newDate h)
                  in numEq (map_option (getHours h) eventDate) (map_option int searchHour) \<and>
                     numEq (map_option (getMinutes h) eventDate) (map_option int searchMinute)))
               events))"

definition exactMatches :: "string \<Rightarrow> CalendarEvent list \<Rightarrow> CalendarEvent list" where
  "exactMatches searchLower events =
     filter (\<lambda>event. toLowerCase (summary event) = searchLower) events"

definition partialMatches :: "string \<Rightarrow> CalendarEvent list \<Rightarrow> CalendarEvent list" where
  "partialMatches searchLower events =
     filter (\<lambda>event. includesStr (toLowerCase (summary event)) searchLower \<or>
                     includesStr searchLower (toLowerCase (summary event))) events"

text \<open>
  What the three identical blocks of \<open>resolveEvent\<close> do with the matches of one stage:
  one match is found, several are put to the user, none hands over to \<open>next\<close>.
\<close>

definition stage :: "CalendarEvent list \<Rightarrow> string \<Rightarrow> resolution \<Rightarrow> resolution" where
  "stage matches label next =
     (if length matches = 1
      then Found (id' (matches ! 0)) (FoundEvent (summary (matches ! 0)))
      else if length matches > 1
      then MultipleFound (EventOptions matches label)
      else next)"

definition resolveEvent :: "host \<Rightarrow> string option \<Rightarrow> CalendarEvent list \<Rightarrow> resolution" where
  "resolveEvent h searchQuery events =
     (case searchQuery of
        None \<Rightarrow> NotFound PleaseSpecify
      | Some q \<Rightarrow>
          if q = [] then NotFound PleaseSpecify
          else
            (let searchLower = toLowerCase q
             in stage (exactMatches searchLower events) ''exact title matches''
                 (stage (partialMatches searchLower events) ''partial title matches''
                   (stage (findEventsByTime h q events) ''time matches''
                     (NotFound (CouldNotFind q))))))"

section \<open>Numbers\<close>

subsection \<open>Rounding to a double\<close>

text \<open>The number of binary digits of a positive integer.\<close>

function bitLength :: "int \<Rightarrow> int" where
  "bitLength n = (if n \<le> 0 then 0 else 1 + bitLength (n div 2))"
  by pat_completeness auto
termination by (relation "measure nat") auto

declare bitLength.simps [simp del]

text \<open>The binary exponent of a real other than 0: the \<open>e\<close> with \<open>2^e \<le> |x| < 2^(e+1)\<close>.\<close>

definition exponentOf :: "real \<Rightarrow> int" where
  "exponentOf x =
     (if \<bar>x\<bar> \<ge> 1 then bitLength \<lfloor>\<bar>x\<bar>\<rfloor> - 1
      else - bitLength (\<lceil>1 / \<bar>x\<bar>\<rceil> - 1))"

text \<open>The nearest integer, the even one of two that are equally near.\<close>

definition roundHalfEven :: "real \<Rightarrow> int" where
  "roundHalfEven x =
     (let f = \<lfloor>x\<rfloor>; r = x - of_int f
      in if r < 1 / 2 then f else if r > 1 / 2 then f + 1 else if even f then f else f + 1)"

text \<open>
  The nearest double of a real: the nearest multiple of \<open>2^(e-52)\<close>, where \<open>e\<close> is the
  binary exponent.  Overflow to infinity and the subnormal range, beyond \<open>2^1024\<close> and
  below \<open>2^(-1022)\<close>, are left out: the numbers of the services are quotients and
  products of time values and of minute counts, and a minute count of hundreds of digits
  is past the largest time value with and without the overflow.
\<close>

definition toDouble :: "real \<Rightarrow> real" where
  "toDouble x =
     (if x = 0 then 0
      else (let q = 2 powi (exponentOf x - 52)
            in of_int (roundHalfEven (x / q)) * q))"

subsection \<open>Arithmetic\<close>

type_synonym number = "real option"

text \<open>A time value is a whole number below \<open>2^53\<close> in magnitude, which is a double.\<close>

fun getTime :: "jsdate \<Rightarrow> number" where
  "getTime None = None"
| "getTime (Some t) = Some (real_of_int t)"

text \<open>
  A minute count that a parser returned, as a number: the nearest double of the count.
  The parsers read and multiply whole numbers; where that differs from arithmetic on
  doubles, past \<open>2^53\<close> minutes, every gap of time values is shorter and every end is
  past the largest time value, with the one and with the other.
\<close>

fun numOfNat :: "nat option \<Rightarrow> number" where
  "numOfNat None = None"
| "numOfNat (Some n) = Some (toDouble (real n))"

fun numAdd :: "number \<Rightarrow> number \<Rightarrow> number" where
  "numAdd (Some a) (Some b) = Some (toDouble (a + b))"
| "numAdd _ _ = None"

fun numSub :: "number \<Rightarrow> number \<Rightarrow> number" where
  "numSub (Some a) (Some b) = Some (toDouble (a - b))"
| "numSub _ _ = None"

fun numMax :: "number \<Rightarrow> number \<Rightarrow> number" where
  "numMax (Some a) (Some b) = Some (max a b)"
| "numMax _ _ = None"

fun numMin :: "number \<Rightarrow> number \<Rightarrow> number" where
  "numMin (Some a) (Some b) = Some (min a b)"
| "numMin _ _ = None"

text \<open>The product with, and the quotient by, a number other than 0 and not-a-number.\<close>

fun numTimes :: "number \<Rightarrow> real \<Rightarrow> number" where
  "numTimes None k = None"
| "numTimes (Some x) k = Some (toDouble (x * k))"

fun numDiv :: "number \<Rightarrow> real \<Rightarrow> number" where
  "numDiv None k = None"
| "numDiv (Some x) k = Some (toDouble (x / k))"

text \<open>Comparisons with not-a-number are false.\<close>

fun numGe :: "number \<Rightarrow> number \<Rightarrow> bool" where
  "numGe (Some a) (Some b) = (a \<ge> b)"
| "numGe _ _ = False"

fun numLt :: "number \<Rightarrow> number \<Rightarrow> bool" where
  "numLt (Some a) (Some b) = (a < b)"
| "numLt _ _ = False"

fun numLe :: "number \<Rightarrow> number \<Rightarrow> bool" where
  "numLe (Some a) (Some b) = (a \<le> b)"
| "numLe _ _ = False"

text \<open>
  \<open>new Date(x)\<close> on a number: the invalid date when \<open>x\<close> is not-a-number or beyond
  the largest time value, and else the time value \<open>x\<close> with its fraction cut off.
\<close>

definition truncNum :: "real \<Rightarrow> int" where
  "truncNum x = (if x \<ge> 0 then \<lfloor>x\<rfloor> else \<lceil>x\<rceil>)"

definition dateOfNumber :: "number \<Rightarrow> jsdate" where
  "dateOfNumber x =
     (case x of
        None \<Rightarrow> None
      | Some v \<Rightarrow> if \<bar>v\<bar> \<le> real_of_int maxTime then Some (truncNum v) else None)"

text \<open>\<open>new Date(x)\<close> on an optional string; \<open>undefined\<close> gives the invalid date.\<close>

definition newDateOpt :: "host \<Rightarrow> string option \<Rightarrow> jsdate" where
  "newDateOpt h x = (case x of None \<Rightarrow> None | Some s \<Rightarrow> newDate h s)"

text \<open>
  \<open>Array.prototype.sort\<close> with a comparison function: a stable sort, in which a
  comparison that is not-a-number counts as 0.
\<close>

fun insertBy :: "('a \<Rightarrow> 'a \<Rightarrow> number) \<Rightarrow> 'a \<Rightarrow> 'a list \<Rightarrow> 'a list" where
  "insertBy cmp x [] = [x]"
| "insertBy cmp x (y # ys) =
     (if numLe (cmp x y) (Some 0) \<or> cmp x y = None then x # y # ys
      else y # insertBy cmp x ys)"

definition sortBy :: "('a \<Rightarrow> 'a \<Rightarrow> number) \<Rightarrow> 'a list \<Rightarrow> 'a list" where
  "sortBy cmp xs = foldr (insertBy cmp) xs []"

section \<open>Statistics\<close>

record CalendarStats =
  totalMeetings :: nat
  totalHours :: number
  averageMeetingDuration :: number
  meetingsByDay :: "(string \<times> nat) list"

text \<open>
  A \<open>Record<string, number>\<close> is a list of keys with their values, in the order the
  keys were first written.
\<close>

fun recordGet :: "(string \<times> nat) list \<Rightarrow> string \<Rightarrow> nat option" where
  "recordGet [] k = None"
| "recordGet ((k', v) # r) k = (if k' = k then Some v else recordGet r k)"

fun recordSet :: "(string \<times> nat) list \<Rightarrow> string \<Rightarrow> nat \<Rightarrow> (string \<times> nat) list" where
  "recordSet [] k v = [(k, v)]"
| "recordSet ((k', v') # r) k v = (if k' = k then (k, v) # r else (k', v') # recordSet r k v)"

text \<open>\<open>s.split('T')[0]\<close>\<close>

definition splitT0 :: "string \<Rightarrow> string" where
  "splitT0 s = takeWhile (\<lambda>c. c \<noteq> CHR ''T'') s"

text \<open>The body of the \<open>forEach\<close>: the per-day counts and the minutes so far.\<close>

definition statsStep ::
  "host \<Rightarrow> CalendarEvent \<Rightarrow> (string \<times> nat) list \<times> number \<Rightarrow>
   error + (string \<times> nat) list \<times> number" where
  "statsStep h event acc =
     (case acc of (byDay, totalMinutes) \<Rightarrow>
        if truthy (dateTime (start event)) \<and> truthy (dateTime (end' event))
        then
          (let startDate = newDateOpt h (dateTime (start event));
               endDate = newDateOpt h (dateTime (end' event));
               duration = numDiv (numSub (getTime endDate) (getTime startDate)) (1000 * 60);
               totalMinutes' = numAdd totalMinutes duration
           in case toISOString startDate of
                Inl e \<Rightarrow> Inl e
              | Inr isoStr \<Rightarrow>
                  (let dayKey = splitT0 isoStr;
                       count = (case recordGet byDay dayKey of
                                  None \<Rightarrow> 0
                                | Some n \<Rightarrow> n)
                   in Inr (recordSet byDay dayKey (count + 1), totalMinutes')))
        else Inr acc)"

fun statsLoop ::
  "host \<Rightarrow> CalendarEvent list \<Rightarrow> (string \<times> nat) list \<times> number \<Rightarrow>
   error + (string \<times> nat) list \<times> number" where
  "statsLoop h [] acc = Inr acc"
| "statsLoop h (event # events) acc =
     (case statsStep h event acc of
        Inl e \<Rightarrow> Inl e
      | Inr acc' \<Rightarrow> statsLoop h events acc')"

definition calculateMeetingStats :: "host \<Rightarrow> CalendarEvent list \<Rightarrow> error + CalendarStats" where
  "calculateMeetingStats h events =
     (case statsLoop h events ([], Some 0) of
        Inl e \<Rightarrow> Inl e
      | Inr (byDay, totalMinutes) \<Rightarrow>
          (let total = length events
           in Inr \<lparr>totalMeetings = total,
                    totalHours = numDiv totalMinutes 60,
                    averageMeetingDuration =
                      (if total > 0 then numDiv totalMinutes (real total) else Some 0),
                    meetingsByDay = byDay\<rparr>))"

text \<open>
  The key the specification asks for, to compare with: the calendar date of an instant in
  the host's local zone, as \<open>YYYY-MM-DD\<close>.
\<close>

definition specLocalDayKey :: "host \<Rightarrow> int \<Rightarrow> string" where
  "specLocalDayKey h t = splitT0 (isoString (t + tzOffset h))"

text \<open>A whole-day event: a date, and no precise start or end.\<close>

definition wholeDay :: "CalendarEvent \<Rightarrow> bool" where
  "wholeDay event =
     (truthy (date (start event)) \<and> \<not> truthy (dateTime (start event)) \<and>
      \<not> truthy (dateTime (end' event)))"

section \<open>Free slots\<close>

record TimeSlot =
  slotStart :: jsdate
  slotEnd :: jsdate

text \<open>The body of the sweep: the slots so far and the cursor.\<close>

definition slotStep ::
  "number \<Rightarrow> jsdate \<times> jsdate \<Rightarrow> TimeSlot list \<times> jsdate \<Rightarrow> TimeSlot list \<times> jsdate" where
  "slotStep durationMinutes event acc =
     (case acc of (slots, currentTime) \<Rightarrow>
        (let gapMinutes = numDiv (numSub (getTime (fst event)) (getTime currentTime)) (1000 * 60);
             slots' =
               (if numGe gapMinutes durationMinutes
                then slots @ [\<lparr>slotStart = currentTime,
                               slotEnd = dateOfNumber
                                 (numAdd (getTime currentTime)
                                   (numTimes (numTimes durationMinutes 60) 1000))\<rparr>]
                else slots)
         in (slots', dateOfNumber (numMax (getTime currentTime) (getTime (snd event))))))"

definition findFreeSlots ::
  "host \<Rightarrow> CalendarEvent list \<Rightarrow> jsdate \<Rightarrow> jsdate \<Rightarrow> number \<Rightarrow> TimeSlot list" where
  "findFreeSlots h events dayStart dayEnd durationMinutes =
     (let sortedEvents =
            sortBy (\<lambda>a b. numSub (getTime (fst a)) (getTime (fst b)))
              (map (\<lambda>event. (newDateOpt h (dateTime (start event)),
                              newDateOpt h (dateTime (end' event))))
                 (filter (\<lambda>event. truthy (dateTime (start event))) events));
          (slots, currentTime) = foldl (\<lambda>acc event. slotStep durationMinutes event acc)
                                   ([], dayStart) sortedEvents;
          remainingMinutes = numDiv (numSub (getTime dayEnd) (getTime currentTime)) (1000 * 60)
      in if numGe remainingMinutes durationMinutes
         then slots @ [\<lparr>slotStart = currentTime,
                         slotEnd = dateOfNumber
                           (numAdd (getTime currentTime)
                             (numTimes (numTimes durationMinutes 60) 1000))\<rparr>]
         else slots)"

section \<open>Conflict severity\<close>

definition getConflictType :: "real \<Rightarrow> string" where
  "getConflictType overlapDuration =
     (if overlapDuration \<ge> 60 then ''Major Conflict (1+ hour overlap)''
      else if overlapDuration \<ge> 30 then ''Significant Conflict (30+ minutes)''
      else if overlapDuration \<ge> 15 then ''Moderate Conflict (15+ minutes)''
      else ''Minor Conflict (< 15 minutes)'')"

section \<open>Requests, payloads and replies\<close>

record Preferences =
  avoidMornings :: "bool option"
  includeWeekends :: "bool option"

record Reminder =
  reminderMinutes :: "nat option"
  reminderMethod :: "string option"

text \<open>
  The argument bag of a function call: the fields the handlers read, each absent or of
  the type the tool schema gives it.
\<close>

record Args =
  arg_recipients :: "string list option"
  arg_preferences :: "Preferences option"
  arg_timeframe :: "string option"
  arg_focusArea :: "string option"
  arg_filter :: "string option"
  arg_duration :: "string option"
  arg_preferredDate :: "string option"
  arg_preferredTimeRange :: "string option"
  arg_eventId :: "string option"
  arg_eventTitle :: "string option"
  arg_summary :: "string option"
  arg_description :: "string option"
  arg_startTime :: "string option"
  arg_endTime :: "string option"
  arg_attendees :: "string list option"
  arg_location :: "string option"
  arg_reminder :: "Reminder option"

definition emptyArgs :: Args where
  "emptyArgs =
     \<lparr>arg_recipients = None, arg_preferences = None, arg_timeframe = None,
      arg_focusArea = None, arg_filter = None, arg_duration = None,
      arg_preferredDate = None, arg_preferredTimeRange = None, arg_eventId = None,
      arg_eventTitle = None, arg_summary = None, arg_description = None,
      arg_startTime = None, arg_endTime = None, arg_attendees = None,
      arg_location = None, arg_reminder = None\<rparr>"

text \<open>The payload sent to the calendar backend (\<open>eventData\<close>).\<close>

record EventData =
  data_summary :: "string option"
  data_description :: "string option"
  data_attendees :: "Attendee list option"
  data_location :: "string option"
  data_start :: "EventTime option"
  data_end :: "EventTime option"
  data_reminders :: "Reminder option"

text \<open>
  The calendar backend (\<open>window.gapi.client.calendar.events\<close>).  A call that rejects
  is \<open>None\<close> (\<open>False\<close> for \<open>delete\<close>).  The calls a handler makes are returned
  with its reply, in order.
\<close>

record backend =
  getEvent :: "string \<Rightarrow> CalendarEvent option"
  insertEvent :: "EventData \<Rightarrow> CalendarEvent option"
  updateEvent :: "string \<Rightarrow> EventData \<Rightarrow> CalendarEvent option"
  deleteEvent :: "string \<Rightarrow> bool"

datatype call =
    Get string
  | Insert EventData
  | Update string EventData
  | Delete string

datatype missing =
    MissingTitle
  | MissingStartTime
  | MissingEndOrDuration
  | MissingAttendees
  | InvalidEmails "string list"
  | MissingIdentification
  | MissingUpdateDetails

record Conflict =
  event1 :: CalendarEvent
  event2 :: CalendarEvent
  overlapDuration :: real
  conflictType :: string

text \<open>
  A reply stands for the text a handler renders: one constructor for each message, with
  the values that go into it.
\<close>

datatype reply =
    ClarifyCreate "missing list"
  | ClarifyUpdate "missing list"
  | ClarifyDelete "missing list"
  | Resolution message
  | EventCreated CalendarEvent
  | CreateFailed
  | EventUpdated CalendarEvent
  | UpdateFailed
  | EventDeleted CalendarEvent
  | DeleteFailed
  | EmailDrafts "string list" "Preferences option"
  | MeetingAnalysis CalendarStats
  | Recommendations CalendarStats "string option"
  | NoConflicts string
  | ConflictsDetected string "Conflict list"
  | NoSlots
  | AvailableSlots "TimeSlot list"
  | NoEventsFound
  | UpcomingEvents "CalendarEvent list"
  | DontKnow

section \<open>Validation\<close>

definition meetingKeywords :: "string list" where
  "meetingKeywords =
     [''meeting'', ''meet'', ''call'', ''conference'', ''discussion'', ''review'', ''standup'',
      ''sync'', ''check-in'', ''checkin'', ''interview'', ''presentation'', ''demo'',
      ''workshop'', ''training'', ''brainstorm'', ''planning'', ''retrospective'',
      ''1:1'', ''one-on-one'', ''team'', ''client'', ''customer'', ''stakeholder'']"

definition seemsLikeMeeting :: "string \<Rightarrow> bool" where
  "seemsLikeMeeting s =
     list_ex (\<lambda>keyword. includesStr (toLowerCase s) keyword) meetingKeywords"

text \<open>\<^verbatim>\<open>/^[^\s@]+@[^\s@]+\.[^\s@]+$/\<close>\<close>

definition emailRegex :: rx where
  "emailRegex =
     (let other = NCls (spaceChars @ ''@'')
      in seqs [other, Star other, Cls ''@'', other, Star other, Cls ''.'',
               other, Star other, Eol])"

definition isValidEmail :: "string \<Rightarrow> bool" where
  "isValidEmail e = rxTestAnchored emailRegex e"

text \<open>
  The validators return the list of what is missing; the request is valid when the list
  is empty, and the clarification message enumerates the list otherwise.
\<close>

definition validateEventCreation :: "Args \<Rightarrow> missing list" where
  "validateEventCreation args =
     (if \<not> truthy (arg_summary args) then [MissingTitle] else [])
     @ (if \<not> truthy (arg_startTime args) then [MissingStartTime] else [])
     @ (if \<not> truthy (arg_endTime args) \<and> \<not> truthy (arg_duration args)
        then [MissingEndOrDuration] else [])
     @ (case arg_summary args of
          Some s \<Rightarrow> if s \<noteq> [] \<and> seemsLikeMeeting s \<and> arg_attendees args = None
                    then [MissingAttendees] else []
        | None \<Rightarrow> [])
     @ (case arg_attendees args of
          Some as \<Rightarrow>
            (let invalidEmails = filter (\<lambda>e. \<not> isValidEmail e) as
             in if length invalidEmails > 0 then [InvalidEmails invalidEmails] else [])
        | None \<Rightarrow> [])"

definition validateEventUpdate :: "Args \<Rightarrow> missing list" where
  "validateEventUpdate args =
     (if \<not> truthy (arg_eventId args) \<and> \<not> truthy (arg_eventTitle args)
         \<and> \<not> truthy (arg_summary args)
      then [MissingIdentification] else [])
     @ (let hasUpdateFields =
              (truthy (arg_summary args) \<or> truthy (arg_description args) \<or>
               truthy (arg_startTime args) \<or> truthy (arg_endTime args) \<or>
               arg_attendees args \<noteq> None \<or> truthy (arg_location args) \<or>
               truthy (arg_duration args))
        in if \<not> hasUpdateFields then [MissingUpdateDetails] else [])"

definition validateEventDelete :: "Args \<Rightarrow> missing list" where
  "validateEventDelete args =
     (if \<not> truthy (arg_eventId args) \<and> \<not> truthy (arg_eventTitle args)
         \<and> \<not> truthy (arg_summary args)
      then [MissingIdentification] else [])"

section \<open>Updating, deleting and creating events\<close>

text \<open>\<open>{ dateTime: d.toISOString(), timeZone: ... }\<close>; raises on the invalid date.\<close>

definition isoTime :: "host \<Rightarrow> jsdate \<Rightarrow> error + EventTime" where
  "isoTime h d =
     (case toISOString d of
        Inl e \<Rightarrow> Inl e
      | Inr s \<Rightarrow> Inr \<lparr>dateTime = Some s, date = None, timeZone = Some (tzName h)\<rparr>)"

text \<open>The payload time of a valid instant.\<close>

definition isoOf :: "host \<Rightarrow> int \<Rightarrow> EventTime" where
  "isoOf h t = \<lparr>dateTime = Some (isoString t), date = None, timeZone = Some (tzName h)\<rparr>"

text \<open>The duration of the existing event in minutes; an hour when it has no precise span.\<close>

definition existingDurationMinutes :: "host \<Rightarrow> CalendarEvent \<Rightarrow> number" where
  "existingDurationMinutes h existingEvent =
     (if truthy (dateTime (start existingEvent)) \<and> truthy (dateTime (end' existingEvent))
      then
        (let startTime = newDateOpt h (dateTime (start existingEvent));
             endTime = newDateOpt h (dateTime (end' existingEvent))
         in numDiv (numSub (getTime endTime) (getTime startTime)) (1000 * 60))
      else Some 60)"

text \<open>The fields of the payload other than the times.\<close>

definition mergedFields :: "Args \<Rightarrow> CalendarEvent \<Rightarrow> EventData" where
  "mergedFields args existingEvent =
     \<lparr>data_summary = orElse (arg_summary args) (Some (summary existingEvent)),
      data_description = orElse (arg_description args) (description existingEvent),
      data_attendees =
        (case arg_attendees args of
           Some as \<Rightarrow> Some (map (\<lambda>e. \<lparr>email = e, displayName = None\<rparr>) as)
         | None \<Rightarrow> attendees existingEvent),
      data_location =
        (if truthy (arg_location args) then arg_location args
         else if truthy (location existingEvent) then location existingEvent
         else None),
      data_start = None,
      data_end = None,
      data_reminders = None\<rparr>"

text \<open>
  \<open>Handle time updates\<close>: the branch on what the request supplies.  A value is read
  with \<open>the\<close> only where it has been tested to be there.
\<close>

definition timeUpdates :: "host \<Rightarrow> Args \<Rightarrow> CalendarEvent \<Rightarrow> EventData \<Rightarrow> error + EventData" where
  "timeUpdates h args existingEvent eventData =
     (if truthy (arg_startTime args) then
        (let newStartTime = parseDateTime h (the (arg_startTime args))
         in case isoTime h newStartTime of
              Inl e \<Rightarrow> Inl e
            | Inr s \<Rightarrow>
                if \<not> truthy (arg_endTime args) \<and> \<not> truthy (arg_duration args)
                then
                  (let newEndTime = dateOfNumber
                         (numAdd (getTime newStartTime)
                            (numTimes (numTimes (existingDurationMinutes h existingEvent) 60)
                               1000))
                   in case isoTime h newEndTime of
                        Inl e \<Rightarrow> Inl e
                      | Inr e \<Rightarrow> Inr (eventData\<lparr>data_start := Some s, data_end := Some e\<rparr>))
                else Inr (eventData\<lparr>data_start := Some s\<rparr>))
      else if truthy (arg_endTime args) then
        (case isoTime h (parseDateTime h (the (arg_endTime args))) of
           Inl e \<Rightarrow> Inl e
         | Inr e \<Rightarrow> Inr (eventData\<lparr>data_start := Some (start existingEvent),
                                   data_end := Some e\<rparr>))
      else Inr (eventData\<lparr>data_start := Some (start existingEvent),
                            data_end := Some (end' existingEvent)\<rparr>))"

text \<open>\<open>Handle duration override if provided\<close>\<close>

definition durationOverride :: "host \<Rightarrow> Args \<Rightarrow> EventData \<Rightarrow> error + EventData" where
  "durationOverride h args eventData =
     (if truthy (arg_duration args) \<and> truthy (arg_startTime args) then
        (let startD = parseDateTime h (the (arg_startTime args))
         in case parseDurationToMinutes (the (arg_duration args)) of
              Inl e \<Rightarrow> Inl e
            | Inr durationMinutes \<Rightarrow>
                (let endD = dateOfNumber
                       (numAdd (getTime startD)
                          (numTimes (numTimes (numOfNat durationMinutes) 60) 1000))
                 in case isoTime h endD of
                      Inl e \<Rightarrow> Inl e
                    | Inr e \<Rightarrow> Inr (eventData\<lparr>data_end := Some e\<rparr>)))
      else Inr eventData)"

text \<open>
  The payload that \<open>updateCalendarEvent\<close> builds between fetching the existing event
  and sending the update.
\<close>

definition updateEventData :: "host \<Rightarrow> Args \<Rightarrow> CalendarEvent \<Rightarrow> error + EventData" where
  "updateEventData h args existingEvent =
     (case timeUpdates h args existingEvent (mergedFields args existingEvent) of
        Inl e \<Rightarrow> Inl e
      | Inr eventData \<Rightarrow> durationOverride h args eventData)"

text \<open>\<open>args.eventId || args.eventTitle || args.summary\<close>\<close>

definition identification :: "Args \<Rightarrow> string option" where
  "identification args = orElse (orElse (arg_eventId args) (arg_eventTitle args)) (arg_summary args)"

text \<open>Every exception after the resolution is caught and becomes the failure reply.\<close>

definition updateCalendarEvent ::
  "host \<Rightarrow> backend \<Rightarrow> Args \<Rightarrow> CalendarEvent list \<Rightarrow> reply \<times> call list" where
  "updateCalendarEvent h be args events =
     (if validateEventUpdate args \<noteq> [] then (ClarifyUpdate (validateEventUpdate args), [])
      else case resolveEvent h (identification args) events of
             NotFound m \<Rightarrow> (Resolution m, [])
           | MultipleFound m \<Rightarrow> (Resolution m, [])
           | Found eventId m \<Rightarrow>
               (case getEvent be eventId of
                  None \<Rightarrow> (UpdateFailed, [Get eventId])
                | Some existingEvent \<Rightarrow>
                    (case updateEventData h args existingEvent of
                       Inl e \<Rightarrow> (UpdateFailed, [Get eventId])
                     | Inr eventData \<Rightarrow>
                         (case updateEvent be eventId eventData of
                            None \<Rightarrow> (UpdateFailed, [Get eventId, Update eventId eventData])
                          | Some updatedEvent \<Rightarrow>
                              (EventUpdated updatedEvent,
                               [Get eventId, Update eventId eventData])))))"

definition deleteCalendarEvent ::
  "host \<Rightarrow> backend \<Rightarrow> Args \<Rightarrow> CalendarEvent list \<Rightarrow> reply \<times> call list" where
  "deleteCalendarEvent h be args events =
     (if validateEventDelete args \<noteq> [] then (ClarifyDelete (validateEventDelete args), [])
      else case resolveEvent h (identification args) events of
             NotFound m \<Rightarrow> (Resolution m, [])
           | MultipleFound m \<Rightarrow> (Resolution m, [])
           | Found eventId m \<Rightarrow>
               (case getEvent be eventId of
                  None \<Rightarrow> (DeleteFailed, [Get eventId])
                | Some event \<Rightarrow>
                    if deleteEvent be eventId
                    then (EventDeleted event, [Get eventId, Delete eventId])
                    else (DeleteFailed, [Get eventId, Delete eventId])))"

text \<open>
  The end of a new event: the end time of the request, or else the start plus the
  duration (an hour when none is given), as an ISO string.
\<close>

definition createEndArg :: "host \<Rightarrow> Args \<Rightarrow> error + string" where
  "createEndArg h args =
     (if truthy (arg_endTime args) then Inr (the (arg_endTime args))
      else
        (let startD = parseDateTime h (the (arg_startTime args))
         in case (if truthy (arg_duration args)
                  then parseDurationToMinutes (the (arg_duration args))
                  else Inr (Some 60)) of
              Inl e \<Rightarrow> Inl e
            | Inr durationMinutes \<Rightarrow>
                toISOString (dateOfNumber
                  (numAdd (getTime startD)
                     (numTimes (numTimes (numOfNat durationMinutes) 60) 1000)))))"

text \<open>The payload of \<open>createCalendarEvent\<close>, built after a successful validation.\<close>

definition createEventData :: "host \<Rightarrow> Args \<Rightarrow> error + EventData" where
  "createEventData h args =
     (case isoTime h (parseDateTime h (the (arg_startTime args))) of
        Inl e \<Rightarrow> Inl e
      | Inr s \<Rightarrow>
          (case createEndArg h args of
             Inl e \<Rightarrow> Inl e
           | Inr et \<Rightarrow>
               (case isoTime h (parseDateTime h et) of
                  Inl e \<Rightarrow> Inl e
                | Inr e \<Rightarrow>
                    Inr \<lparr>data_summary = arg_summary args,
                         data_description = orElse (arg_description args) (Some []),
                         data_attendees =
                           (case arg_attendees args of
                              Some as \<Rightarrow> Some (map (\<lambda>e. \<lparr>email = e, displayName = None\<rparr>) as)
                            | None \<Rightarrow> None),
                         data_location =
                           (if truthy (arg_location args) then arg_location args else None),
                         data_start = Some s,
                         data_end = Some e,
                         data_reminders = arg_reminder args\<rparr>)))"

definition createCalendarEvent :: "host \<Rightarrow> backend \<Rightarrow> Args \<Rightarrow> reply \<times> call list" where
  "createCalendarEvent h be args =
     (if validateEventCreation args \<noteq> [] then (ClarifyCreate (validateEventCreation args), [])
      else case createEventData h args of
             Inl e \<Rightarrow> (CreateFailed, [])
           | Inr eventData \<Rightarrow>
               (case insertEvent be eventData of
                  None \<Rightarrow> (CreateFailed, [Insert eventData])
                | Some createdEvent \<Rightarrow> (EventCreated createdEvent, [Insert eventData])))"

section \<open>Timeframes, conflicts, slots and listings\<close>

definition getLocalEventTime :: "host \<Rightarrow> EventTime \<Rightarrow> jsdate" where
  "getLocalEventTime h eventTime =
     (if truthy (dateTime eventTime) then newDateOpt h (dateTime eventTime)
      else if truthy (date eventTime) then newDateOpt h (date eventTime)
      else Some (now h))"

text \<open>
  \<open>a.toDateString() === b.toDateString()\<close>: the same local calendar day; the invalid
  date prints as \<open>Invalid Date\<close>.
\<close>

fun sameDateString :: "host \<Rightarrow> jsdate \<Rightarrow> jsdate \<Rightarrow> bool" where
  "sameDateString h (Some a) (Some b) = (localDay h a = localDay h b)"
| "sameDateString h None None = True"
| "sameDateString h _ _ = False"

text \<open>\<open>new Date(now.getFullYear(), now.getMonth() + 1, 0)\<close>: the last day of the month.\<close>

definition monthEndOf :: "host \<Rightarrow> int \<Rightarrow> int" where
  "monthEndOf h t =
     (case civilFromDays (localDay h t) of (y, m, d) \<Rightarrow>
        (daysFromCivil y (m + 1) 1 - 1) * msPerDay - tzOffset h)"

text \<open>The \<open>switch\<close> on the timeframe, which the two handlers that filter by it share.\<close>

definition timeframeFilter :: "host \<Rightarrow> string \<Rightarrow> CalendarEvent list \<Rightarrow> CalendarEvent list" where
  "timeframeFilter h timeframe events =
     (let today = getLocalToday h;
          tomorrow = addDays today 1;
          weekEnd = addDays today 7;
          monthEnd = monthEndOf h (getLocalNow h);
          tf = toLowerCase timeframe
      in if tf = ''today''
         then filter (\<lambda>event. sameDateString h (getLocalEventTime h (start event)) (Some today))
                events
         else if tf = ''tomorrow''
         then filter (\<lambda>event. sameDateString h (getLocalEventTime h (start event))
                                (Some tomorrow)) events
         else if tf = ''week'' \<or> tf = ''this week''
         then filter (\<lambda>event.
                 numGe (getTime (getLocalEventTime h (start event))) (getTime (Some today)) \<and>
                 numLe (getTime (getLocalEventTime h (start event))) (getTime (Some weekEnd)))
                events
         else if tf = ''month''
         then filter (\<lambda>event.
                 numGe (getTime (getLocalEventTime h (start event))) (getTime (Some today)) \<and>
                 numLe (getTime (getLocalEventTime h (start event))) (getTime (Some monthEnd)))
                events
         else events)"

text \<open>The pairs \<open>(xs[i], xs[j])\<close> with \<open>i < j\<close>, in the order the nested iteration takes.\<close>

fun pairs :: "'a list \<Rightarrow> ('a \<times> 'a) list" where
  "pairs [] = []"
| "pairs (x # xs) = map (\<lambda>y. (x, y)) xs @ pairs xs"

definition conflictOf ::
  "(CalendarEvent \<times> jsdate \<times> jsdate) \<times> (CalendarEvent \<times> jsdate \<times> jsdate) \<Rightarrow> Conflict list" where
  "conflictOf p =
     (case p of ((e1, s1, f1), (e2, s2, f2)) \<Rightarrow>
        (let overlapStart = dateOfNumber (numMax (getTime s1) (getTime s2));
             overlapEnd = dateOfNumber (numMin (getTime f1) (getTime f2))
         in if numLt (getTime overlapStart) (getTime overlapEnd)
            then (case numDiv (numSub (getTime overlapEnd) (getTime overlapStart)) (1000 * 60) of
                    Some minutes \<Rightarrow>
                      [\<lparr>event1 = e1, event2 = e2, overlapDuration = minutes,
                        conflictType = getConflictType minutes\<rparr>]
                  | None \<Rightarrow> [])
            else []))"

text \<open>\<open>timeframe.toLowerCase()\<close> raises when the timeframe is \<open>undefined\<close>.\<close>

definition findConflicts :: "host \<Rightarrow> string option \<Rightarrow> CalendarEvent list \<Rightarrow> error + reply" where
  "findConflicts h timeframe events =
     (case timeframe of
        None \<Rightarrow> Inl TypeError
      | Some tf \<Rightarrow>
          (let timeframeEvents = timeframeFilter h tf events;
               sortedEvents =
                 sortBy (\<lambda>a b. numSub (getTime (fst (snd a))) (getTime (fst (snd b))))
                   (map (\<lambda>event. (event, getLocalEventTime h (start event),
                                   getLocalEventTime h (end' event)))
                      (filter (\<lambda>event. truthy (dateTime (start event))) timeframeEvents));
               conflicts = concat (map conflictOf (pairs sortedEvents))
           in if length conflicts = 0 then Inr (NoConflicts tf)
              else Inr (ConflictsDetected tf conflicts)))"

definition getTargetDate :: "host \<Rightarrow> string \<Rightarrow> int" where
  "getTargetDate h preferredDate =
     (let today = getLocalToday h
      in if includesStr (toLowerCase preferredDate) ''today'' then today
         else if includesStr (toLowerCase preferredDate) ''tomorrow'' then addDays today 1
         else case newDate h preferredDate of
                Some parsed \<Rightarrow> parsed
              | None \<Rightarrow> today)"

text \<open>\<open>a || d\<close> with a string for \<open>d\<close>.\<close>

definition orDefault :: "string option \<Rightarrow> string \<Rightarrow> string" where
  "orDefault a d = (case a of None \<Rightarrow> d | Some s \<Rightarrow> if s \<noteq> [] then s else d)"

definition findAvailableTimeSlots :: "host \<Rightarrow> Args \<Rightarrow> CalendarEvent list \<Rightarrow> error + reply" where
  "findAvailableTimeSlots h args events =
     (let duration = orDefault (arg_duration args) ''1 hour'';
          preferredDate = orDefault (arg_preferredDate args) ''today'';
          preferredTimeRange = orDefault (arg_preferredTimeRange args) ''9am-5pm''
      in case parseDurationToMinutes duration of
           Inl e \<Rightarrow> Inl e
         | Inr durationMinutes \<Rightarrow>
             (let targetDate = getTargetDate h preferredDate;
                  (startTime, endTime) = parseTimeRange h preferredTimeRange targetDate;
                  dayEvents =
                    filter (\<lambda>event.
                      sameDateString h
                        (newDate h (orDefault (orElse (dateTime (start event))
                                                 (date (start event))) []))
                        (Some targetDate)) events;
                  availableSlots =
                    findFreeSlots h dayEvents startTime endTime (numOfNat durationMinutes)
              in if length availableSlots = 0 then Inr NoSlots
                 else Inr (AvailableSlots availableSlots)))"

definition listUpcomingEvents ::
  "host \<Rightarrow> CalendarEvent list \<Rightarrow> string option \<Rightarrow> string option \<Rightarrow> reply" where
  "listUpcomingEvents h events timeframe keyword =
     (let byTimeframe =
            (if truthy timeframe then timeframeFilter h (the timeframe) events else events);
          filteredEvents =
            (if truthy keyword
             then filter (\<lambda>event.
                    includesStr (toLowerCase (summary event)) (toLowerCase (the keyword)) \<or>
                    (truthy (description event) \<and>
                     includesStr (toLowerCase (the (description event)))
                       (toLowerCase (the keyword)))) byTimeframe
             else byTimeframe)
      in if length filteredEvents = 0 then NoEventsFound else UpcomingEvents filteredEvents)"

text \<open>\<open>recipients.forEach\<close> raises when the recipients are \<open>undefined\<close>.\<close>

definition generateEmailDrafts :: "string list option \<Rightarrow> Preferences option \<Rightarrow> error + reply" where
  "generateEmailDrafts recipients preferences =
     (case recipients of
        None \<Rightarrow> Inl TypeError
      | Some rs \<Rightarrow> Inr (EmailDrafts rs preferences))"

definition analyzeMeetingTime :: "CalendarStats \<Rightarrow> string option \<Rightarrow> reply" where
  "analyzeMeetingTime stats timeframe = MeetingAnalysis stats"

text \<open>
  The recommendations come from the language model, or from a fixed text when the call to
  it fails; both are rendered from the statistics and the focus area.
\<close>

definition provideRecommendations :: "CalendarStats \<Rightarrow> string option \<Rightarrow> reply" where
  "provideRecommendations stats focusArea = Recommendations stats focusArea"

section \<open>Dispatch\<close>

text \<open>
  The arguments of a function call arrive as a string of JSON, as an object, or not at
  all.  \<open>JSON.parse\<close> is the host's: it raises on a malformed text (\<open>None\<close>), or returns
  \<open>null\<close>, or a value whose fields can be read.
\<close>

datatype json = JsonNull | JsonObject Args

datatype arguments = ArgString string | ArgObject Args | ArgMissing

record functionCall =
  name :: string
  arguments :: arguments

definition parseArguments :: "(string \<Rightarrow> json option) \<Rightarrow> arguments \<Rightarrow> json" where
  "parseArguments jsonParse args =
     (case args of
        ArgString s \<Rightarrow>
          (case jsonParse s of
             None \<Rightarrow> JsonObject emptyArgs
           | Some parsed \<Rightarrow> parsed)
      | ArgObject a \<Rightarrow> JsonObject a
      | ArgMissing \<Rightarrow> JsonObject emptyArgs)"

definition knownNames :: "string list" where
  "knownNames =
     [''generate_email_drafts'', ''analyze_meeting_time'', ''provide_recommendations'',
      ''find_conflicts'', ''find_available_time_slots'', ''create_calendar_event'',
      ''update_calendar_event'', ''delete_calendar_event'', ''list_upcoming_events'']"

text \<open>
  Reading a field of \<open>null\<close> raises; every named operation reads one before anything
  else.  An exception leaves \<open>handleFunctionCall\<close> as it is raised.
\<close>

definition handleFunctionCall ::
  "host \<Rightarrow> backend \<Rightarrow> (string \<Rightarrow> json option) \<Rightarrow> functionCall \<Rightarrow> CalendarEvent list \<Rightarrow>
   CalendarStats \<Rightarrow> error + reply \<times> call list" where
  "handleFunctionCall h be jsonParse fc events stats =
     (if name fc \<notin> set knownNames then Inr (DontKnow, [])
      else case parseArguments jsonParse (arguments fc) of
             JsonNull \<Rightarrow> Inl TypeError
           | JsonObject parsedArgs \<Rightarrow>
               if name fc = ''generate_email_drafts''
               then map_sum id (\<lambda>r. (r, []))
                      (generateEmailDrafts (arg_recipients parsedArgs)
                         (arg_preferences parsedArgs))
               else if name fc = ''analyze_meeting_time''
               then Inr (analyzeMeetingTime stats (arg_timeframe parsedArgs), [])
               else if name fc = ''provide_recommendations''
               then Inr (provideRecommendations stats (arg_focusArea parsedArgs), [])
               else if name fc = ''find_conflicts''
               then map_sum id (\<lambda>r. (r, [])) (findConflicts h (arg_timeframe parsedArgs) events)
               else if name fc = ''find_available_time_slots''
               then map_sum id (\<lambda>r. (r, [])) (findAvailableTimeSlots h parsedArgs events)
               else if name fc = ''create_calendar_event''
               then Inr (createCalendarEvent h be parsedArgs)
               else if name fc = ''update_calendar_event''
               then Inr (updateCalendarEvent h be parsedArgs events)
               else if name fc = ''delete_calendar_event''
               then Inr (deleteCalendarEvent h be parsedArgs events)
               else Inr (listUpcomingEvents h events (arg_timeframe parsedArgs)
                           (arg_filter parsedArgs), []))"

section \<open>What the shape of a pattern says about its captures\<close>

text \<open>
  Three properties that can be read off a pattern, and that say what its capture groups
  hold after a match: the pattern begins with a digit; every group \<open>n\<close>
  in it begins with a digit; group \<open>n\<close> takes part in every match.
\<close>

fun beginsWithDigit :: "rx \<Rightarrow> bool" where
  "beginsWithDigit (Cls cs) = list_all isDigit cs"
| "beginsWithDigit (Seq a b) = beginsWithDigit a"
| "beginsWithDigit (Cap n a) = beginsWithDigit a"
| "beginsWithDigit r = False"

fun digitCaps :: "nat \<Rightarrow> rx \<Rightarrow> bool" where
  "digitCaps n (Cap m a) = ((m = n \<longrightarrow> beginsWithDigit a) \<and> digitCaps n a)"
| "digitCaps n (Seq a b) = (digitCaps n a \<and> digitCaps n b)"
| "digitCaps n (Alt a b) = (digitCaps n a \<and> digitCaps n b)"
| "digitCaps n (Star a) = digitCaps n a"
| "digitCaps n r = True"

fun mustCap :: "nat \<Rightarrow> rx \<Rightarrow> bool" where
  "mustCap n (Cap m a) = (m = n \<or> mustCap n a)"
| "mustCap n (Seq a b) = (mustCap n a \<or> mustCap n b)"
| "mustCap n (Alt a b) = (mustCap n a \<and> mustCap n b)"
| "mustCap n r = False"

text \<open>A capture that is \<open>undefined\<close> or begins with a digit.\<close>

definition numeric :: "string option \<Rightarrow> bool" where
  "numeric x = (case x of None \<Rightarrow> True | Some ds \<Rightarrow> ds \<noteq> [] \<and> isDigit (hd ds))"

section \<open>Example hosts and events\<close>

text \<open>
  The \<open>Date\<close> constructor of the example hosts, on the ISO strings that the examples
  use: each with its time value.
\<close>

definition isoTable :: "(string \<times> int) list" where
  "isoTable =
     [(''2024-01-15'', 1705276800000),
      (''2024-01-16'', 1705363200000),
      (''2024-01-15T10:00:00Z'', 1705312800000),
      (''2024-01-15T10:30:00Z'', 1705314600000),
      (''2024-01-15T11:00:00Z'', 1705316400000),
      (''2024-01-15T14:00:00Z'', 1705327200000),
      (''2024-01-15T15:00:00Z'', 1705330800000),
      (''2024-01-15T16:00:00Z'', 1705334400000),
      (''2024-01-15T18:00:00Z'', 1705341600000),
      (''2024-01-15T19:00:00Z'', 1705345200000),
      (''2024-01-15T22:00:00Z'', 1705356000000),
      (''2024-01-15T23:00:00Z'', 1705359600000),
      (''2024-01-15T10:00:00-05:00'', 1705330800000),
      (''2024-01-15T11:00:00-05:00'', 1705334400000),
      (''2024-01-15T20:00:00-05:00'', 1705366800000),
      (''2024-01-15T21:00:00-05:00'', 1705370400000),
      (''2024-01-15T10:02:03Z'', 1705312923000),
      (''1970-01-01T00:00:00Z'', 0)]"

text \<open>A host on UTC, at 08:00 on 15 January 2024.\<close>

definition utcHost :: host where
  "utcHost = \<lparr>now = 1705305600000, tzOffset = 0, tzName = ''UTC'',
              dateParse = map_of isoTable\<rparr>"

text \<open>A host five hours behind UTC, at 08:00 local time on 15 January 2024.\<close>

definition nyHost :: host where
  "nyHost = \<lparr>now = 1705323600000, tzOffset = - 18000000, tzName = ''America/New_York'',
             dateParse = map_of isoTable\<rparr>"

definition timedEvent :: "string \<Rightarrow> string \<Rightarrow> string \<Rightarrow> string \<Rightarrow> CalendarEvent" where
  "timedEvent i title s e =
     \<lparr>id' = i, summary = title, description = None,
      start = \<lparr>dateTime = Some s, date = None, timeZone = None\<rparr>,
      end' = \<lparr>dateTime = Some e, date = None, timeZone = None\<rparr>,
      attendees = None, location = None\<rparr>"

definition wholeDayEvent :: "string \<Rightarrow> string \<Rightarrow> string \<Rightarrow> string \<Rightarrow> CalendarEvent" where
  "wholeDayEvent i title s e =
     \<lparr>id' = i, summary = title, description = None,
      start = \<lparr>dateTime = None, date = Some s, timeZone = None\<rparr>,
      end' = \<lparr>dateTime = None, date = Some e, timeZone = None\<rparr>,
      attendees = None, location = None\<rparr>"

definition teamSync :: CalendarEvent where
  "teamSync = timedEvent ''7kukuqrfedlm2f9t'' ''Team Sync''
                ''2024-01-15T10:00:00Z'' ''2024-01-15T10:30:00Z''"

definition syncWithBob :: CalendarEvent where
  "syncWithBob = timedEvent ''0q3mb1p4c1d2e5ab'' ''Sync with Bob''
                   ''2024-01-15T14:00:00Z'' ''2024-01-15T15:00:00Z''"

definition review :: CalendarEvent where
  "review = timedEvent ''rv01'' ''Review'' ''2024-01-15T10:00:00Z'' ''2024-01-15T11:00:00Z''"

definition holiday :: CalendarEvent where
  "holiday = wholeDayEvent ''hd01'' ''Holiday'' ''2024-01-15'' ''2024-01-16''"

definition dinner :: CalendarEvent where
  "dinner = timedEvent ''dn01'' ''Dinner'' ''2024-01-15T18:00:00Z'' ''2024-01-15T19:00:00Z''"

definition lateCall :: CalendarEvent where
  "lateCall = timedEvent ''lc01'' ''Late call'' ''2024-01-15T22:00:00Z'' ''2024-01-15T23:00:00Z''"

definition nyReview :: CalendarEvent where
  "nyReview = timedEvent ''ny01'' ''Review''
                ''2024-01-15T10:00:00-05:00'' ''2024-01-15T11:00:00-05:00''"

definition nyDinner :: CalendarEvent where
  "nyDinner = timedEvent ''ny02'' ''Dinner''
                ''2024-01-15T20:00:00-05:00'' ''2024-01-15T21:00:00-05:00''"

text \<open>A check-in of two minutes and three seconds.\<close>

definition checkIn :: CalendarEvent where
  "checkIn = timedEvent ''ck01'' ''Check-in'' ''2024-01-15T10:00:00Z'' ''2024-01-15T10:02:03Z''"

text \<open>A backend that holds the two sync events and accepts every update.\<close>

definition exampleBackend :: backend where
  "exampleBackend =
     \<lparr>getEvent = (\<lambda>i. find (\<lambda>e. id' e = i) [teamSync, syncWithBob]),
      insertEvent = (\<lambda>d. None),
      updateEvent = (\<lambda>i d. find (\<lambda>e. id' e = i) [teamSync, syncWithBob]),
      deleteEvent = (\<lambda>i. True)\<rparr>"

text \<open>A backend that holds the check-in and accepts every update.\<close>

definition checkInBackend :: backend where
  "checkInBackend =
     \<lparr>getEvent = (\<lambda>i. find (\<lambda>e. id' e = i) [checkIn]),
      insertEvent = (\<lambda>d. None),
      updateEvent = (\<lambda>i d. find (\<lambda>e. id' e = i) [checkIn]),
      deleteEvent = (\<lambda>i. True)\<rparr>"

text \<open>A \<open>JSON.parse\<close> on the two texts \<open>{}\<close> and \<open>null\<close>; every other text is malformed.\<close>

definition exampleJson :: "string \<Rightarrow> json option" where
  "exampleJson = map_of [(''{}'', JsonObject emptyArgs), (''null'', JsonNull)]"

definition exampleStats :: CalendarStats where
  "exampleStats = \<lparr>totalMeetings = 2, totalHours = Some 1.5, averageMeetingDuration = Some 45,
                    meetingsByDay = [(''2024-01-15'', 2)]\<rparr>"

text \<open>Requests to update \<open>Team Sync\<close>: a new start alone, and a new start with a new end.\<close>

definition moveTo2pm :: Args where
  "moveTo2pm = emptyArgs\<lparr>arg_eventTitle := Some ''Team Sync'',
                          arg_startTime := Some ''today at 2pm''\<rparr>"

definition move2pmTo4pm :: Args where
  "move2pmTo4pm = emptyArgs\<lparr>arg_eventTitle := Some ''Team Sync'',
                             arg_startTime := Some ''today at 2pm'',
                             arg_endTime := Some ''today at 4pm''\<rparr>"

text \<open>
  More requests to update \<open>Team Sync\<close>: a new end alone, a new start with a duration,
  and a new start with a duration of three thousand million hours.
\<close>

definition endAt4pm :: Args where
  "endAt4pm = emptyArgs\<lparr>arg_eventTitle := Some ''Team Sync'',
                         arg_endTime := Some ''today at 4pm''\<rparr>"

definition moveTo2pmFor45 :: Args where
  "moveTo2pmFor45 = emptyArgs\<lparr>arg_eventTitle := Some ''Team Sync'',
                               arg_startTime := Some ''today at 2pm'',
                               arg_duration := Some ''45 minutes''\<rparr>"

definition moveTo2pmForAges :: Args where
  "moveTo2pmForAges = emptyArgs\<lparr>arg_eventTitle := Some ''Team Sync'',
                                 arg_startTime := Some ''today at 2pm'',
                                 arg_duration := Some ''3000000000 hours''\<rparr>"

text \<open>A request to move the check-in to the first instant of 1970.\<close>

definition moveToEpoch :: Args where
  "moveToEpoch = emptyArgs\<lparr>arg_eventTitle := Some ''Check-in'',
                            arg_startTime := Some ''1970-01-01T00:00:00Z''\<rparr>"

text \<open>A request for an hour today between 9am and 5pm.\<close>

definition hourToday :: Args where
  "hourToday = emptyArgs\<lparr>arg_duration := Some ''1 hour'', arg_preferredDate := Some ''today'',
                          arg_preferredTimeRange := Some ''9am-5pm''\<rparr>"

text \<open>A request to relocate an event named by its identifier.\<close>

definition relocateById :: Args where
  "relocateById = emptyArgs\<lparr>arg_eventId := Some ''7kukuqrfedlm2f9t'',
                             arg_location := Some ''Room 2''\<rparr>"

section \<open>Verified properties\<close>

subsection \<open>The example table\<close>

text \<open>
  The time values that the table gives to the strings with an offset, and to the dates
  without a time, printed back as UTC.
\<close>

lemma isoTable_times:
  "map isoString [1705330800000, 1705334400000, 1705366800000, 1705370400000,
                  1705276800000, 1705363200000] =
     [''2024-01-15T15:00:00.000Z'', ''2024-01-15T16:00:00.000Z'',
      ''2024-01-16T01:00:00.000Z'', ''2024-01-16T02:00:00.000Z'',
      ''2024-01-15T00:00:00.000Z'', ''2024-01-16T00:00:00.000Z'']"
  by code_simp

text \<open>The clocks of the two hosts, and the civil calendar in both directions.\<close>

lemma example_clocks:
  "isoString (now utcHost) = ''2024-01-15T08:00:00.000Z''"
  "isoString (now nyHost) = ''2024-01-15T13:00:00.000Z''"
  "getHours nyHost (now nyHost) = 8"
  "civilFromDays (daysFromCivil 2024 2 29) = (2024, 2, 29)"
  "daysFromCivil 1970 1 1 = 0"
  by code_simp+

subsection \<open>Rounding to a double\<close>

text \<open>
  The rounding on values whose doubles are known: a tenth, a third, the first whole numbers
  that are not doubles with the tie to the even significand, and the minutes of two
  minutes and three seconds, which do not come back as 123000 milliseconds.
\<close>

lemma toDouble_examples:
  "toDouble (1 / 10) = 3602879701896397 / 36028797018963968"
  "toDouble (- 1 / 3) = - (6004799503160661 / 18014398509481984)"
  "toDouble 9007199254740993 = 9007199254740992"
  "toDouble 9007199254740995 = 9007199254740996"
  "toDouble (toDouble (toDouble (123000 / 60000) * 60) * 1000) = 8452495638527999 / 68719476736"
  "\<lfloor>8452495638527999 / 68719476736 :: real\<rfloor> = 122999"
  by code_simp+

lemma bitLength_nonneg: "0 \<le> bitLength n"
proof (induction n rule: bitLength.induct)
  case (1 n)
  then show ?case by (cases "n \<le> 0") (simp_all add: bitLength.simps[of n])
qed

lemma bitLength_upper: "n < 2 ^ k \<Longrightarrow> bitLength n \<le> int k"
proof (induction k arbitrary: n)
  case 0
  then show ?case by (simp add: bitLength.simps[of n])
next
  case (Suc k)
  show ?case
  proof (cases "n \<le> 0")
    case True
    then show ?thesis by (simp add: bitLength.simps[of n])
  next
    case False
    from Suc.prems have "n div 2 < 2 ^ k" by simp
    from Suc.IH[OF this] False show ?thesis by (simp add: bitLength.simps[of n])
  qed
qed

lemma roundHalfEven_of_int: "roundHalfEven (of_int m) = m"
  by (simp add: roundHalfEven_def)

lemma roundHalfEven_upper: "of_int (roundHalfEven x) \<le> x + 1 / 2"
  unfolding roundHalfEven_def Let_def by (auto; linarith)

text \<open>A whole number below \<open>2^53\<close> in magnitude is a double.\<close>

lemma toDouble_of_int:
  assumes "\<bar>n\<bar> < 2 ^ 53"
  shows "toDouble (of_int n) = of_int n"
proof (cases "n = 0")
  case True
  then show ?thesis by (simp add: toDouble_def)
next
  case False
  define e where "e = exponentOf (of_int n)"
  have a: "\<bar>real_of_int n\<bar> = of_int \<bar>n\<bar>" by simp
  from False have "1 \<le> \<bar>n\<bar>" by simp
  then have ge: "1 \<le> \<bar>real_of_int n\<bar>" unfolding a by (simp only: of_int_1_le_iff)
  have e: "e = bitLength \<bar>n\<bar> - 1"
    unfolding e_def exponentOf_def using ge by (simp only: a floor_of_int if_True)
  from bitLength_upper[OF assms] have "e \<le> 52" using e by simp
  define k where "k = nat (52 - e)"
  have q: "(2::real) powi (e - 52) = 1 / 2 ^ k"
    using \<open>e \<le> 52\<close> unfolding k_def
    by (simp add: power_int_def field_simps)
  have "real_of_int n / (1 / 2 ^ k) = of_int (n * 2 ^ k)" by simp
  then have r: "roundHalfEven (real_of_int n / (1 / 2 ^ k)) = n * 2 ^ k"
    by (simp only: roundHalfEven_of_int)
  show ?thesis
    using False unfolding toDouble_def Let_def e_def[symmetric] q r by simp
qed

text \<open>Rounding adds at most half a unit of the last place.\<close>

lemma exponentOf_upper:
  assumes "\<bar>x\<bar> < 2 ^ k"
  shows "exponentOf x \<le> int k - 1 \<or> exponentOf x \<le> 0"
proof (cases "\<bar>x\<bar> \<ge> 1")
  case True
  from assms have "\<lfloor>\<bar>x\<bar>\<rfloor> < 2 ^ k" by (simp add: floor_less_iff)
  from bitLength_upper[OF this] True show ?thesis by (simp add: exponentOf_def)
next
  case False
  then show ?thesis using bitLength_nonneg[of "\<lceil>1 / \<bar>x\<bar>\<rceil> - 1"]
    by (simp add: exponentOf_def)
qed

lemma toDouble_upper: "toDouble x \<le> x + 2 powi (exponentOf x - 52) / 2"
proof (cases "x = 0")
  case True
  then show ?thesis by (simp add: toDouble_def)
next
  case False
  define q where "q = (2::real) powi (exponentOf x - 52)"
  have q: "0 < q" by (simp add: q_def)
  have "of_int (roundHalfEven (x / q)) * q \<le> (x / q + 1 / 2) * q"
    using roundHalfEven_upper[of "x / q"] q by (simp only: mult_le_cancel_right_pos)
  also have "\<dots> = x + q / 2" using q by (simp add: field_simps)
  finally show ?thesis using False by (simp add: toDouble_def Let_def q_def)
qed

lemma toDouble_below:
  assumes "\<bar>x\<bar> < 2 ^ 38"
  shows "toDouble x \<le> x + 1 / 65536"
proof -
  from exponentOf_upper[OF assms] have e: "exponentOf x - 52 \<le> - 15" by auto
  have "(2::real) powi (exponentOf x - 52) \<le> 2 powi (- 15)"
    by (rule power_int_increasing[OF e]) simp
  also have "\<dots> = 1 / 32768" by (simp add: power_int_def power_one_over)
  finally show ?thesis using toDouble_upper[of x] by simp
qed

lemma bitLength_strict: "0 \<le> n \<Longrightarrow> n < 2 ^ nat (bitLength n)"
proof (induction n rule: bitLength.induct)
  case (1 n)
  show ?case
  proof (cases "n \<le> 0")
    case True
    with 1(2) show ?thesis by (simp add: bitLength.simps[of n])
  next
    case False
    with 1 have ih: "n div 2 < 2 ^ nat (bitLength (n div 2))" by simp
    from False have b: "bitLength n = 1 + bitLength (n div 2)" by (simp add: bitLength.simps[of n])
    have "nat (bitLength n) = Suc (nat (bitLength (n div 2)))"
      unfolding b using bitLength_nonneg[of "n div 2"] by simp
    then have "(2::int) ^ nat (bitLength n) = 2 * 2 ^ nat (bitLength (n div 2))" by simp
    with ih show ?thesis by linarith
  qed
qed

lemma bitLength_pos: "0 < n \<Longrightarrow> 1 \<le> bitLength n"
  using bitLength_nonneg[of "n div 2"] by (simp add: bitLength.simps[of n])

lemma bitLength_lower: "0 < n \<Longrightarrow> 2 ^ nat (bitLength n - 1) \<le> n"
proof (induction n rule: bitLength.induct)
  case (1 n)
  show ?case
  proof (cases "n div 2 \<le> 0")
    case True
    with 1(2) have "n = 1" by linarith
    then show ?thesis by (simp add: bitLength.simps[of 1] bitLength.simps[of 0])
  next
    case False
    with 1 have ih: "2 ^ nat (bitLength (n div 2) - 1) \<le> n div 2" by simp
    from False have p: "1 \<le> bitLength (n div 2)" by (simp add: bitLength_pos)
    from 1(2) have "bitLength n = 1 + bitLength (n div 2)" by (simp add: bitLength.simps[of n])
    then have "nat (bitLength n - 1) = Suc (nat (bitLength (n div 2) - 1))" using p by simp
    then have "(2::int) ^ nat (bitLength n - 1) = 2 * 2 ^ nat (bitLength (n div 2) - 1)" by simp
    also have "\<dots> \<le> 2 * (n div 2)" using ih by simp
    also have "\<dots> \<le> n" by simp
    finally show ?thesis .
  qed
qed

text \<open>The binary exponent is what its name says.\<close>

lemma bitLength_lower_real: "1 \<le> n \<Longrightarrow> 2 ^ nat (bitLength n - 1) \<le> real_of_int n"
proof -
  assume "1 \<le> n"
  then have "2 ^ nat (bitLength n - 1) \<le> n" using bitLength_lower[of n] by simp
  then have "real_of_int (2 ^ nat (bitLength n - 1)) \<le> real_of_int n"
    by (simp only: of_int_le_iff)
  then show ?thesis by simp
qed

lemma bitLength_strict_real: "1 \<le> n \<Longrightarrow> real_of_int n + 1 \<le> 2 ^ nat (bitLength n)"
proof -
  assume "1 \<le> n"
  then have "n + 1 \<le> 2 ^ nat (bitLength n)" using bitLength_strict[of n] by simp
  then have "real_of_int (n + 1) \<le> real_of_int (2 ^ nat (bitLength n))"
    by (simp only: of_int_le_iff)
  then show ?thesis by simp
qed

lemma exponentOf_bounds:
  assumes "x \<noteq> 0"
  shows "2 powi (exponentOf x) \<le> \<bar>x\<bar> \<and> \<bar>x\<bar> < 2 powi (exponentOf x + 1)"
proof (cases "\<bar>x\<bar> \<ge> 1")
  case True
  define n where "n = \<lfloor>\<bar>x\<bar>\<rfloor>"
  from True have n1: "1 \<le> n" by (simp add: n_def le_floor_iff)
  then have b1: "1 \<le> bitLength n" by (simp add: bitLength_pos)
  have e: "exponentOf x = bitLength n - 1" using True by (simp add: exponentOf_def n_def)
  have "2 ^ nat (bitLength n - 1) \<le> real_of_int n" by (rule bitLength_lower_real[OF n1])
  also have "\<dots> \<le> \<bar>x\<bar>" by (simp add: n_def)
  finally have lo: "2 powi (exponentOf x) \<le> \<bar>x\<bar>"
    unfolding e using b1 by (simp add: power_int_def)
  have "\<bar>x\<bar> < real_of_int n + 1" unfolding n_def by linarith
  also have "\<dots> \<le> 2 ^ nat (bitLength n)" by (rule bitLength_strict_real[OF n1])
  finally have hi: "\<bar>x\<bar> < 2 powi (exponentOf x + 1)"
    unfolding e using b1 by (simp add: power_int_def)
  from lo hi show ?thesis ..
next
  case False
  with assms have x: "0 < \<bar>x\<bar>" "\<bar>x\<bar> < 1" by simp_all
  define N where "N = \<lceil>1 / \<bar>x\<bar>\<rceil>"
  define n where "n = N - 1"
  from x have "1 < 1 / \<bar>x\<bar>" by (simp add: field_simps)
  then have n1: "1 \<le> n" unfolding n_def N_def by (simp add: less_ceiling_iff)
  then have b1: "1 \<le> bitLength n" by (simp add: bitLength_pos)
  have e: "exponentOf x = - bitLength n" using False by (simp add: exponentOf_def n_def N_def)
  have "1 / \<bar>x\<bar> \<le> real_of_int N" by (simp add: N_def)
  also have "\<dots> = real_of_int n + 1" by (simp add: n_def)
  also have "\<dots> \<le> 2 ^ nat (bitLength n)" by (rule bitLength_strict_real[OF n1])
  finally have "1 / \<bar>x\<bar> \<le> 2 ^ nat (bitLength n)" .
  then have "1 / 2 ^ nat (bitLength n) \<le> \<bar>x\<bar>" using x(1) by (simp add: field_simps)
  then have lo: "2 powi (exponentOf x) \<le> \<bar>x\<bar>"
    unfolding e using b1 by (simp add: power_int_def power_one_over field_simps)
  have "2 ^ nat (bitLength n - 1) \<le> real_of_int n" by (rule bitLength_lower_real[OF n1])
  also have "\<dots> < 1 / \<bar>x\<bar>" unfolding n_def N_def by linarith
  finally have "2 ^ nat (bitLength n - 1) < 1 / \<bar>x\<bar>" .
  then have "\<bar>x\<bar> < 1 / 2 ^ nat (bitLength n - 1)" using x(1) by (simp add: field_simps)
  moreover have "(2::real) powi (- bitLength n + 1) = 1 / 2 ^ nat (bitLength n - 1)"
  proof (cases "bitLength n = 1")
    case True
    then show ?thesis by simp
  next
    case False
    with b1 have "nat (- (- bitLength n + 1)) = nat (bitLength n - 1)" "\<not> 0 \<le> - bitLength n + 1"
      by simp_all
    then show ?thesis by (simp add: power_int_def power_one_over)
  qed
  ultimately have hi: "\<bar>x\<bar> < 2 powi (exponentOf x + 1)" unfolding e by simp
  from lo hi show ?thesis ..
qed

lemma roundHalfEven_lower: "x - 1 / 2 \<le> of_int (roundHalfEven x)"
  unfolding roundHalfEven_def Let_def by (auto; linarith)

lemma roundHalfEven_near:
  assumes "\<bar>w - of_int k\<bar> < 1 / 2"
  shows "roundHalfEven w = k"
proof -
  from roundHalfEven_upper[of w] roundHalfEven_lower[of w] assms
  have "\<bar>real_of_int (roundHalfEven w) - real_of_int k\<bar> < 1" by linarith
  then have "\<bar>real_of_int (roundHalfEven w - k)\<bar> < 1" by simp
  then have "\<bar>roundHalfEven w - k\<bar> < 1" by (metis of_int_abs of_int_less_1_iff)
  then show ?thesis by simp
qed

text \<open>Rounding changes a number by at most one part in \<open>2^53\<close>.\<close>

lemma toDouble_error: "\<bar>toDouble x - x\<bar> \<le> \<bar>x\<bar> / 2 ^ 53"
proof (cases "x = 0")
  case True
  then show ?thesis by (simp add: toDouble_def)
next
  case False
  define q where "q = (2::real) powi (exponentOf x - 52)"
  have q: "0 < q" by (simp add: q_def)
  have "toDouble x - x = (of_int (roundHalfEven (x / q)) - x / q) * q"
    using False q by (simp add: toDouble_def Let_def q_def[symmetric] field_simps)
  then have "\<bar>toDouble x - x\<bar> = \<bar>of_int (roundHalfEven (x / q)) - x / q\<bar> * q"
    using q by (simp add: abs_mult)
  also have "\<dots> \<le> 1 / 2 * q"
  proof (rule mult_right_mono)
    show "\<bar>of_int (roundHalfEven (x / q)) - x / q\<bar> \<le> 1 / 2"
      using roundHalfEven_upper[of "x / q"] roundHalfEven_lower[of "x / q"] by linarith
    show "0 \<le> q" using q by simp
  qed
  also have "\<dots> = 2 powi (exponentOf x) / 2 ^ 53"
    by (simp add: q_def power_int_diff)
  also have "\<dots> \<le> \<bar>x\<bar> / 2 ^ 53"
    using exponentOf_bounds[OF False] by (simp add: divide_right_mono)
  finally show ?thesis .
qed

text \<open>A number close enough to a whole number below \<open>2^53\<close> rounds to it.\<close>

lemma toDouble_near_int:
  assumes "z \<noteq> 0" "\<bar>z\<bar> < 2 ^ 53" "\<bar>z - of_int m\<bar> \<le> \<bar>z\<bar> / 2 ^ 54"
  shows "toDouble z = of_int m"
proof -
  define e where "e = exponentOf z"
  from exponentOf_upper[OF assms(2)] have e52: "e \<le> 52" by (auto simp: e_def)
  define k where "k = nat (52 - e)"
  have q: "(2::real) powi (e - 52) = 1 / 2 ^ k"
    using e52 unfolding k_def by (simp add: power_int_def field_simps)
  have "e + 1 = (e - 52) + 53" by simp
  then have "(2::real) powi (e + 1) = 2 powi ((e - 52) + 53)" by (simp only:)
  also have "\<dots> = 2 powi (e - 52) * 2 powi 53" by (rule power_int_add) simp
  also have "\<dots> = 2 ^ 53 / 2 ^ k" unfolding q by simp
  finally have p: "(2::real) powi (e + 1) = 2 ^ 53 / 2 ^ k" .
  have "\<bar>z\<bar> < 2 ^ 53 / 2 ^ k"
    using exponentOf_bounds[OF assms(1)] unfolding e_def[symmetric] p by simp
  then have zk: "\<bar>z\<bar> * 2 ^ k < 2 ^ 53" by (simp add: field_simps)
  have "z * 2 ^ k - of_int (m * 2 ^ k) = (z - of_int m) * 2 ^ k" by (simp add: algebra_simps)
  then have "\<bar>z * 2 ^ k - of_int (m * 2 ^ k)\<bar> = \<bar>z - of_int m\<bar> * 2 ^ k"
    by (simp only: abs_mult) simp
  also have "\<dots> \<le> \<bar>z\<bar> / 2 ^ 54 * 2 ^ k"
    using assms(3) by (intro mult_right_mono) simp_all
  also have "\<dots> = \<bar>z\<bar> * 2 ^ k / 2 ^ 54" by simp
  also have "\<dots> < 2 ^ 53 / 2 ^ 54" using zk by (simp add: divide_strict_right_mono)
  finally have "\<bar>z * 2 ^ k - of_int (m * 2 ^ k)\<bar> < 1 / 2" by simp
  then have r: "roundHalfEven (z * 2 ^ k) = m * 2 ^ k" by (rule roundHalfEven_near)
  have "z / (1 / 2 ^ k) = z * 2 ^ k" by simp
  then show ?thesis
    using assms(1) unfolding toDouble_def Let_def e_def[symmetric] q by (simp add: r)
qed

text \<open>
  The duration of \<open>d\<close> milliseconds, taken to minutes and back: off by at most seven
  parts in \<open>2^53\<close>.
\<close>

lemma round_trip_error:
  assumes "0 \<le> d"
  shows "\<bar>toDouble (toDouble (toDouble (real_of_int d / 60000) * 60) * 1000) - real_of_int d\<bar>
           \<le> 7 * real_of_int d / 2 ^ 53"
proof -
  define u where "u = (1::real) / 2 ^ 53"
  define a where "a = real_of_int d / 60000"
  define y1 where "y1 = toDouble a"
  define y2 where "y2 = toDouble (y1 * 60)"
  define y3 where "y3 = toDouble (y2 * 1000)"
  from assms have a0: "0 \<le> a" by (simp add: a_def)
  have u: "0 < u" "u \<le> 1" by (simp_all add: u_def)
  have e1: "\<bar>y1 - a\<bar> \<le> u * a"
    using toDouble_error[of a] a0 by (simp add: y1_def u_def)
  then have b1: "0 \<le> y1" "y1 \<le> 2 * a"
  proof -
    from e1 have "a - u * a \<le> y1" "y1 \<le> a + u * a" by linarith+
    moreover have "u * a \<le> a" using u a0 by (simp add: mult_left_le_one_le)
    ultimately show "0 \<le> y1" "y1 \<le> 2 * a" by linarith+
  qed
  have e2: "\<bar>y2 - y1 * 60\<bar> \<le> u * (y1 * 60)"
    using toDouble_error[of "y1 * 60"] b1(1) by (simp add: y2_def u_def)
  note e2
  also have "u * (y1 * 60) \<le> u * (120 * a)"
    by (rule mult_left_mono) (use b1(2) u(1) in simp_all)
  also have "\<dots> = 120 * (u * a)" by simp
  finally have e2': "\<bar>y2 - y1 * 60\<bar> \<le> 120 * (u * a)" .
  have e2'': "\<bar>y2 - 60 * a\<bar> \<le> 180 * (u * a)" using e1 e2' by linarith
  have ua: "0 \<le> u * a" "u * a \<le> a" using u a0 by (simp_all add: mult_left_le_one_le)
  from e2'' ua have b2: "0 \<le> y2 \<or> y2 < 0" "y2 \<le> 240 * a" "- (180 * (u * a)) \<le> y2 - 60 * a"
    by linarith+
  have e3: "\<bar>y3 - y2 * 1000\<bar> \<le> u * \<bar>y2 * 1000\<bar>"
    using toDouble_error[of "y2 * 1000"] by (simp add: y3_def u_def)
  have "\<bar>y2 * 1000\<bar> \<le> 240000 * a"
  proof -
    from b2(3) ua have "- (180 * a) \<le> y2 - 60 * a" by linarith
    with b2(2) a0 show ?thesis by (simp add: abs_le_iff)
  qed
  then have "u * \<bar>y2 * 1000\<bar> \<le> u * (240000 * a)"
    by (rule mult_left_mono) (use u(1) in simp)
  also have "\<dots> = 240000 * (u * a)" by simp
  finally have "u * \<bar>y2 * 1000\<bar> \<le> 240000 * (u * a)" .
  with e3 have e3': "\<bar>y3 - y2 * 1000\<bar> \<le> 240000 * (u * a)" by linarith
  from e2'' e3' have "\<bar>y3 - 60000 * a\<bar> \<le> 420000 * (u * a)" by linarith
  then show ?thesis
    unfolding y3_def y2_def y1_def by (simp add: a_def u_def)
qed

text \<open>
  Added to a start that lies sixteen durations or more after the first instant of 1970,
  the round trip disappears in the rounding of the sum.
\<close>

lemma sum_far_from_epoch:
  assumes "0 \<le> d" "16 * d \<le> t" "t + d \<le> 8640000000000000"
  shows "toDouble (real_of_int t
            + toDouble (toDouble (toDouble (real_of_int d / 60000) * 60) * 1000))
           = real_of_int (t + d)"
proof (cases "d = 0")
  case True
  with assms have "\<bar>t\<bar> < 2 ^ 53" by simp
  from toDouble_of_int[OF this] True show ?thesis by (simp add: toDouble_def)
next
  case False
  define y where "y = toDouble (toDouble (toDouble (real_of_int d / 60000) * 60) * 1000)"
  define z where "z = real_of_int t + y"
  from False assms(1) have d1: "1 \<le> real_of_int d" by simp
  from assms(2) have td: "16 * real_of_int d \<le> real_of_int t"
    by (metis of_int_le_iff of_int_mult of_int_numeral)
  from assms(3) have tm: "real_of_int t + real_of_int d \<le> 8640000000000000"
    by (metis of_int_le_iff of_int_add of_int_numeral)
  have err: "\<bar>y - real_of_int d\<bar> \<le> 7 * real_of_int d / 2 ^ 53"
    unfolding y_def by (rule round_trip_error[OF assms(1)])
  have small: "7 * real_of_int d / 2 ^ 53 \<le> real_of_int d / 2 ^ 50" using d1 by simp
  have small': "real_of_int d / 2 ^ 50 \<le> real_of_int d" using d1 by simp
  from err small small' have yb: "0 \<le> y" "y \<le> 2 * real_of_int d" by linarith+
  have z0: "z \<noteq> 0" "0 < z" using yb td d1 by (simp_all add: z_def)
  have "real_of_int d / 2 ^ 50 \<le> 8" using td tm d1 by simp
  with err small have "y \<le> real_of_int d + 8" by linarith
  with tm z0(2) have zb: "\<bar>z\<bar> < 2 ^ 53" by (simp add: z_def)
  have "\<bar>z - real_of_int (t + d)\<bar> = \<bar>y - real_of_int d\<bar>" by (simp add: z_def)
  also have "\<dots> \<le> 7 * real_of_int d / 2 ^ 53" by (rule err)
  also have "\<dots> = 14 * real_of_int d / 2 ^ 54" by simp
  also have "\<dots> \<le> \<bar>z\<bar> / 2 ^ 54"
  proof -
    have "14 * real_of_int d \<le> z" using yb td by (simp add: z_def)
    then show ?thesis using z0 by (simp add: divide_right_mono)
  qed
  finally have "\<bar>z - real_of_int (t + d)\<bar> \<le> \<bar>z\<bar> / 2 ^ 54" .
  from toDouble_near_int[OF z0(1) zb this] show ?thesis by (simp add: z_def y_def)
qed

subsection \<open>What a match leaves in the capture groups\<close>

lemma run_length:
  "(s', c') \<in> set (run r (s, c)) \<Longrightarrow> length s' \<le> length s \<and> length c' = length c"
proof (induction r "(s, c)" arbitrary: s c s' c' rule: run.induct)
  case (1 s c)
  then show ?case by simp
next
  case (2 cs s c)
  then show ?case by (auto split: list.splits if_splits)
next
  case (3 a b s c)
  from 3(3) obtain s1 c1 where m: "(s1, c1) \<in> set (run a (s, c))"
    and n: "(s', c') \<in> set (run b (s1, c1))" by auto
  from 3(1)[OF m] 3(2)[OF m n] show ?case by simp
next
  case (4 a b s c)
  then show ?case by auto
next
  case (5 a s c)
  from 5(3) consider "(s', c') = (s, c)"
    | s1 c1 where "(s1, c1) \<in> set (run a (s, c))" "length s1 < length s"
        "(s', c') \<in> set (run (Star a) (s1, c1))"
    by (auto simp: run.simps(5)[of a s c] split: if_splits)
  then show ?case
  proof cases
    case 1
    then show ?thesis by simp
  next
    case 2
    from 5(1)[OF 2(1)] 5(2)[OF 2(1) _ 2(2) 2(3)] show ?thesis by simp
  qed
next
  case (6 n a s c)
  from 6(2) obtain c1 where m: "(s', c1) \<in> set (run a (s, c))"
    and e: "c' = c1[n := Some (take (length s - length s') s)]" by auto
  from 6(1)[OF m] e show ?case by simp
next
  case (7 cs s c)
  then show ?case by (auto split: list.splits if_splits)
next
  case (8 s c)
  then show ?case by (auto split: if_splits)
qed


lemma run_mono:
  "(s', c') \<in> set (run r (s, c)) \<Longrightarrow> c ! n \<noteq> None \<Longrightarrow> n < length c \<Longrightarrow> c' ! n \<noteq> None"
proof (induction r "(s, c)" arbitrary: s c s' c' rule: run.induct)
  case (1 s c)
  then show ?case by simp
next
  case (2 cs s c)
  then show ?case by (auto split: list.splits if_splits)
next
  case (3 a b s c)
  from 3(3) obtain s1 c1 where m: "(s1, c1) \<in> set (run a (s, c))"
    and k: "(s', c') \<in> set (run b (s1, c1))" by auto
  from run_length[OF m] 3(5) have l: "n < length c1" by simp
  from 3(2)[OF m k 3(1)[OF m 3(4) 3(5)] l] show ?case .
next
  case (4 a b s c)
  then show ?case by auto
next
  case (5 a s c)
  from 5(3) consider "(s', c') = (s, c)"
    | s1 c1 where "(s1, c1) \<in> set (run a (s, c))" "length s1 < length s"
        "(s', c') \<in> set (run (Star a) (s1, c1))"
    by (auto simp: run.simps(5)[of a s c] split: if_splits)
  then show ?case
  proof cases
    case 1
    with 5(4) show ?thesis by simp
  next
    case 2
    from run_length[OF 2(1)] 5(5) have l: "n < length c1" by simp
    from 5(2)[OF 2(1) _ 2(2) 2(3) 5(1)[OF 2(1) 5(4) 5(5)] l] show ?thesis by simp
  qed
next
  case (6 m a s c)
  from 6(2) obtain c1 where k: "(s', c1) \<in> set (run a (s, c))"
    and e: "c' = c1[m := Some (take (length s - length s') s)]" by auto
  from run_length[OF k] 6(4) have l: "n < length c1" by simp
  from 6(1)[OF k 6(3) 6(4)] e l show ?case by (cases "m = n") simp_all
next
  case (7 cs s c)
  then show ?case by (auto split: list.splits if_splits)
next
  case (8 s c)
  then show ?case by (auto split: if_splits)
qed

lemma run_begins:
  "beginsWithDigit r \<Longrightarrow> (s', c') \<in> set (run r (s, c)) \<Longrightarrow>
   \<exists>x t. s = x # t \<and> isDigit x \<and> length s' \<le> length t"
proof (induction r arbitrary: s c s' c')
  case (Cls cs)
  then show ?case by (auto simp: list_all_iff split: list.splits if_splits)
next
  case (Seq a b)
  from Seq(4) obtain s1 c1 where m: "(s1, c1) \<in> set (run a (s, c))"
    and k: "(s', c') \<in> set (run b (s1, c1))" by auto
  from Seq(3) have "beginsWithDigit a" by simp
  from Seq(1)[OF this m] run_length[OF k] show ?case by auto
next
  case (Cap m a)
  from Cap(3) obtain c1 where k: "(s', c1) \<in> set (run a (s, c))" by auto
  from Cap(2) have "beginsWithDigit a" by simp
  from Cap(1)[OF this k] show ?case .
qed simp_all

lemma take_begins:
  assumes "s = x # t" "isDigit x" "length s' \<le> length t"
  shows "numeric (Some (take (length s - length s') s))"
proof -
  from assms(1,3) obtain k where "length s - length s' = Suc k"
    by (cases "length s - length s'") auto
  with assms(1,2) show ?thesis by (simp add: numeric_def)
qed

lemma run_numeric:
  "(s', c') \<in> set (run r (s, c)) \<Longrightarrow> digitCaps n r \<Longrightarrow> numeric (c ! n) \<Longrightarrow>
   n < length c \<Longrightarrow> numeric (c' ! n)"
proof (induction r "(s, c)" arbitrary: s c s' c' rule: run.induct)
  case (1 s c)
  then show ?case by simp
next
  case (2 cs s c)
  then show ?case by (auto split: list.splits if_splits)
next
  case (3 a b s c)
  from 3(3) obtain s1 c1 where m: "(s1, c1) \<in> set (run a (s, c))"
    and k: "(s', c') \<in> set (run b (s1, c1))" by auto
  from 3(4) have da: "digitCaps n a" and db: "digitCaps n b" by simp_all
  from run_length[OF m] 3(6) have l: "n < length c1" by simp
  from 3(2)[OF m k db 3(1)[OF m da 3(5) 3(6)] l] show ?case .
next
  case (4 a b s c)
  then show ?case by auto
next
  case (5 a s c)
  from 5(4) have da: "digitCaps n a" by simp
  from 5(3) consider "(s', c') = (s, c)"
    | s1 c1 where "(s1, c1) \<in> set (run a (s, c))" "length s1 < length s"
        "(s', c') \<in> set (run (Star a) (s1, c1))"
    by (auto simp: run.simps(5)[of a s c] split: if_splits)
  then show ?case
  proof cases
    case 1
    with 5(5) show ?thesis by simp
  next
    case 2
    from run_length[OF 2(1)] 5(6) have l: "n < length c1" by simp
    from 5(2)[OF 2(1) _ 2(2) 2(3) 5(4) 5(1)[OF 2(1) da 5(5) 5(6)] l] show ?thesis by simp
  qed
next
  case (6 m a s c)
  from 6(2) obtain c1 where k: "(s', c1) \<in> set (run a (s, c))"
    and e: "c' = c1[m := Some (take (length s - length s') s)]" by auto
  from 6(3) have da: "digitCaps n a" by simp
  from run_length[OF k] 6(5) have l: "n < length c1" by simp
  show ?case
  proof (cases "m = n")
    case True
    with 6(3) have "beginsWithDigit a" by simp
    from run_begins[OF this k] obtain x t where "s = x # t" "isDigit x" "length s' \<le> length t"
      by blast
    from take_begins[OF this] e l True show ?thesis by simp
  next
    case False
    with 6(1)[OF k da 6(4) 6(5)] e show ?thesis by simp
  qed
next
  case (7 cs s c)
  then show ?case by (auto split: list.splits if_splits)
next
  case (8 s c)
  then show ?case by (auto split: if_splits)
qed

lemma run_must:
  "mustCap n r \<Longrightarrow> (s', c') \<in> set (run r (s, c)) \<Longrightarrow> n < length c \<Longrightarrow> c' ! n \<noteq> None"
proof (induction r arbitrary: s c s' c')
  case (Seq a b)
  from Seq(4) obtain s1 c1 where m: "(s1, c1) \<in> set (run a (s, c))"
    and k: "(s', c') \<in> set (run b (s1, c1))" by auto
  from run_length[OF m] Seq(5) have l: "n < length c1" by simp
  from Seq(3) consider "mustCap n a" | "mustCap n b" by auto
  then show ?case
  proof cases
    case 1
    from run_mono[OF k Seq(1)[OF 1 m Seq(5)] l] show ?thesis .
  next
    case 2
    from Seq(2)[OF 2 k l] show ?thesis .
  qed
next
  case (Alt a b)
  then show ?case by auto
next
  case (Cap m a)
  from Cap(3) obtain c1 where k: "(s', c1) \<in> set (run a (s, c))"
    and e: "c' = c1[m := Some (take (length s - length s') s)]" by auto
  from run_length[OF k] Cap(4) have l: "n < length c1" by simp
  show ?case
  proof (cases "m = n")
    case True
    with e l show ?thesis by simp
  next
    case False
    with Cap(2) have "mustCap n a" by simp
    from Cap(1)[OF this k Cap(4)] e False show ?thesis by simp
  qed
qed simp_all

lemma rxMatch_run:
  "rxMatch r k s = Some m \<Longrightarrow> \<exists>s0 s'. (s', m) \<in> set (run r (s0, replicate (Suc k) None))"
proof (induction s)
  case Nil
  show ?case
  proof (cases "run r ([], replicate (Suc k) None)")
    case Nil
    with Nil.prems show ?thesis by simp
  next
    case (Cons p ps)
    with Nil.prems have "(fst p, m) \<in> set (run r ([], replicate (Suc k) None))"
      by (cases p) auto
    then show ?thesis by blast
  qed
next
  case (Cons x t)
  show ?case
  proof (cases "run r (x # t, replicate (Suc k) None)")
    case Nil
    with Cons show ?thesis by simp
  next
    case (Cons p ps)
    with Cons.prems have "(fst p, m) \<in> set (run r (x # t, replicate (Suc k) None))"
      by (cases p) auto
    then show ?thesis by blast
  qed
qed

lemma match_numeric:
  assumes "rxMatch r k s = Some m" "n \<le> k" "digitCaps n r"
  shows "numeric (grp m n)"
proof -
  from rxMatch_run[OF assms(1)] obtain s0 s'
    where m: "(s', m) \<in> set (run r (s0, replicate (Suc k) None))" by blast
  from assms(2) have l: "n < length (replicate (Suc k) (None :: string option))" by simp
  have "replicate (Suc k) (None :: string option) ! n = None"
    using l by (simp only: length_replicate nth_replicate)
  then have "numeric (replicate (Suc k) (None :: string option) ! n)"
    by (simp only: numeric_def option.case)
  from run_numeric[OF m assms(3) this l] run_length[OF m] assms(2) show ?thesis
    by (simp add: grp_def)
qed

lemma match_must:
  assumes "rxMatch r k s = Some m" "n \<le> k" "mustCap n r"
  shows "grp m n \<noteq> None"
proof -
  from rxMatch_run[OF assms(1)] obtain s0 s'
    where m: "(s', m) \<in> set (run r (s0, replicate (Suc k) None))" by blast
  from assms(2) have l: "n < length (replicate (Suc k) (None :: string option))" by simp
  from run_must[OF assms(3) m l] run_length[OF m] assms(2) show ?thesis
    by (simp add: grp_def)
qed

lemma parseInt_numeric: "numeric (Some ds) \<Longrightarrow> \<exists>v. parseInt ds = Some v"
  by (cases ds) (simp_all add: numeric_def parseInt_def Let_def)

subsection \<open>Conflict severity\<close>

text \<open>
  C5.  The severity of an overlap in minutes has inclusive lower bounds, tried from the
  highest: 60 and more is major, 30 up to 60 is significant, 15 up to 30 is moderate,
  less than 15 is minor; so 60 is major, 59 and 30 are significant, 29 and 15 are
  moderate, 14 is minor.
\<close>

theorem getConflictType_thresholds:
  "(60 \<le> x \<longrightarrow> getConflictType x = ''Major Conflict (1+ hour overlap)'') \<and>
   (30 \<le> x \<and> x < 60 \<longrightarrow> getConflictType x = ''Significant Conflict (30+ minutes)'') \<and>
   (15 \<le> x \<and> x < 30 \<longrightarrow> getConflictType x = ''Moderate Conflict (15+ minutes)'') \<and>
   (x < 15 \<longrightarrow> getConflictType x = ''Minor Conflict (< 15 minutes)'') \<and>
   getConflictType 60 = ''Major Conflict (1+ hour overlap)'' \<and>
   getConflictType 59 = ''Significant Conflict (30+ minutes)'' \<and>
   getConflictType 30 = ''Significant Conflict (30+ minutes)'' \<and>
   getConflictType 29 = ''Moderate Conflict (15+ minutes)'' \<and>
   getConflictType 15 = ''Moderate Conflict (15+ minutes)'' \<and>
   getConflictType 14 = ''Minor Conflict (< 15 minutes)''"
  by (simp add: getConflictType_def)

theorem getConflictType_thresholds_witness:
  "(30::real) \<le> 45 \<and> (45::real) < 60 \<and>
   getConflictType 45 = ''Significant Conflict (30+ minutes)''"
  using getConflictType_thresholds [of 45] by simp

subsection \<open>The parsers are total\<close>

lemma timePattern_shape:
  "digitCaps 1 timePattern" "digitCaps 2 timePattern" "mustCap 1 timePattern"
  by (simp_all add: timePattern_def digit_def space_def opt_def isDigit_def)

lemma durationPattern_shape:
  "digitCaps 1 durationPattern" "mustCap 1 durationPattern" "mustCap 2 durationPattern"
  by (simp_all add: durationPattern_def digit_def space_def opt_def isDigit_def)

lemma rangePattern_shape:
  "digitCaps 1 rangePattern" "digitCaps 2 rangePattern"
  "digitCaps 4 rangePattern" "digitCaps 5 rangePattern"
  "mustCap 1 rangePattern" "mustCap 4 rangePattern"
  by (simp_all add: rangePattern_def digit_def space_def opt_def isDigit_def)

lemma hour_defined:
  assumes "rxMatch r k s = Some m" "n \<le> k" "digitCaps n r" "mustCap n r"
  shows "\<exists>v. Option.bind (grp m n) parseInt = Some v"
proof -
  from match_must[OF assms(1,2,4)] obtain ds where d: "grp m n = Some ds" by auto
  from match_numeric[OF assms(1,2,3)] d have "numeric (Some ds)" by simp
  from parseInt_numeric[OF this] d show ?thesis by auto
qed

lemma minute_defined:
  assumes "rxMatch r k s = Some m" "n \<le> k" "digitCaps n r"
  shows "\<exists>v. minuteOf (grp m n) = Some v"
proof (cases "grp m n")
  case None
  then show ?thesis by (simp add: minuteOf_def)
next
  case (Some ds)
  from match_numeric[OF assms] Some have "numeric (Some ds)" by simp
  from parseInt_numeric[OF this] Some show ?thesis by (auto simp: minuteOf_def)
qed

lemma parseTimeForDate_valid: "\<exists>t. parseTimeForDate h s b = Some t"
proof (cases "rxMatch timePattern 3 s")
  case None
  then show ?thesis by (simp add: parseTimeForDate_def)
next
  case (Some m)
  from hour_defined[OF Some _ timePattern_shape(1,3)]
  obtain hr where hr: "Option.bind (grp m 1) parseInt = Some hr" by auto
  from minute_defined[OF Some _ timePattern_shape(2)]
  obtain mi where mi: "minuteOf (grp m 2) = Some mi" by auto
  from Some hr mi show ?thesis
    by (simp add: parseTimeForDate_def Let_def setHoursNum_def)
qed

lemma parseTimeForDate_no_match:
  "rxMatch timePattern 3 s = None \<Longrightarrow> parseTimeForDate h s b = Some b"
  by (simp add: parseTimeForDate_def)

lemma parseDateTime_valid: "\<exists>t. parseDateTime h s = Some t"
  using parseTimeForDate_valid[of h s]
  by (auto simp: parseDateTime_def Let_def split: option.splits)

lemma parseDurationToMinutes_valid: "\<exists>n. parseDurationToMinutes s = Inr (Some n)"
proof (cases "rxMatch durationPattern 2 s")
  case None
  then show ?thesis by (simp add: parseDurationToMinutes_def)
next
  case (Some m)
  from hour_defined[OF Some _ durationPattern_shape(1,2)]
  obtain v where v: "Option.bind (grp m 1) parseInt = Some v" by auto
  from match_must[OF Some _ durationPattern_shape(3)]
  obtain u where u: "grp m 2 = Some u" by auto
  from Some v u show ?thesis
    by (simp add: parseDurationToMinutes_def Let_def)
qed

lemma parseTimeRange_valid: "\<exists>a b. parseTimeRange h s d = (Some a, Some b)"
proof (cases "rxMatch rangePattern 6 s")
  case None
  then show ?thesis by (simp add: parseTimeRange_def Let_def split: prod.splits)
next
  case (Some m)
  from hour_defined[OF Some _ rangePattern_shape(1,5)]
  obtain h1 where h1: "Option.bind (grp m 1) parseInt = Some h1" by auto
  from hour_defined[OF Some _ rangePattern_shape(3,6)]
  obtain h2 where h2: "Option.bind (grp m 4) parseInt = Some h2" by auto
  from minute_defined[OF Some _ rangePattern_shape(2)]
  obtain m1 where m1: "minuteOf (grp m 2) = Some m1" by auto
  from minute_defined[OF Some _ rangePattern_shape(4)]
  obtain m2 where m2: "minuteOf (grp m 5) = Some m2" by auto
  from Some h1 h2 m1 m2 show ?thesis
    by (simp add: parseTimeRange_def Let_def setHoursNum_def)
qed

text \<open>
  C8.  The three parsers return a value on every string and raise nothing: the date and
  time parser returns a valid instant, and the current instant when the text names no day,
  is no date the host reads and holds no clock time; the duration parser returns a number
  of minutes, and 60 when the text holds no amount with a unit; the range parser returns
  two valid instants, and 09:00 and 17:00 of the day when the text holds no range and
  names no part of the day.
\<close>

theorem parsers_total:
  "(\<exists>t. parseDateTime h s = Some t) \<and>
   (\<not> includesStr (toLowerCase s) ''today'' \<and> \<not> includesStr (toLowerCase s) ''tomorrow'' \<and>
    newDate h s = None \<and> rxMatch timePattern 3 s = None
      \<longrightarrow> parseDateTime h s = Some (now h)) \<and>
   (\<exists>n. parseDurationToMinutes s = Inr (Some n)) \<and>
   (rxMatch durationPattern 2 s = None \<longrightarrow> parseDurationToMinutes s = Inr (Some 60)) \<and>
   (\<exists>a b. parseTimeRange h s d = (Some a, Some b)) \<and>
   (rxMatch rangePattern 6 s = None \<and>
    toLowerCase s \<notin> {''morning'', ''afternoon'', ''evening''}
      \<longrightarrow> parseTimeRange h s d = (Some (setHours h d 9 0), Some (setHours h d 17 0)))"
proof (intro conjI impI)
  show "\<exists>t. parseDateTime h s = Some t" by (rule parseDateTime_valid)
  show "\<exists>n. parseDurationToMinutes s = Inr (Some n)" by (rule parseDurationToMinutes_valid)
  show "\<exists>a b. parseTimeRange h s d = (Some a, Some b)" by (rule parseTimeRange_valid)
next
  assume "\<not> includesStr (toLowerCase s) ''today'' \<and> \<not> includesStr (toLowerCase s) ''tomorrow'' \<and>
    newDate h s = None \<and> rxMatch timePattern 3 s = None"
  then show "parseDateTime h s = Some (now h)"
    by (simp add: parseDateTime_def Let_def getLocalNow_def)
next
  assume "rxMatch durationPattern 2 s = None"
  then show "parseDurationToMinutes s = Inr (Some 60)"
    by (simp add: parseDurationToMinutes_def)
next
  assume "rxMatch rangePattern 6 s = None \<and>
    toLowerCase s \<notin> {''morning'', ''afternoon'', ''evening''}"
  then show "parseTimeRange h s d = (Some (setHours h d 9 0), Some (setHours h d 17 0))"
    by (simp add: parseTimeRange_def Let_def)
qed

lemma garbage_facts:
  "\<not> includesStr (toLowerCase ''garbage'') ''today''"
  "\<not> includesStr (toLowerCase ''garbage'') ''tomorrow''"
  "newDate utcHost ''garbage'' = None"
  "rxMatch timePattern 3 ''garbage'' = None"
  "rxMatch durationPattern 2 ''garbage'' = None"
  "rxMatch rangePattern 6 ''garbage'' = None"
  "toLowerCase ''garbage'' \<notin> {''morning'', ''afternoon'', ''evening''}"
  by code_simp+

theorem parsers_total_witness:
  "parseDateTime utcHost ''garbage'' = Some (now utcHost) \<and>
   parseDurationToMinutes ''garbage'' = Inr (Some 60) \<and>
   parseTimeRange utcHost ''garbage'' 1705305600000 =
     (Some (setHours utcHost 1705305600000 9 0), Some (setHours utcHost 1705305600000 17 0))"
  using parsers_total [of utcHost "''garbage''" 1705305600000] garbage_facts
  by simp

subsection \<open>Event resolution\<close>

lemma resolveEvent_stages:
  "q \<noteq> [] \<longrightarrow>
      (let ex = exactMatches (toLowerCase q) events;
           pa = partialMatches (toLowerCase q) events;
           ti = findEventsByTime h q events;
           r = resolveEvent h (Some q) events
       in (ex = [e] \<longrightarrow> r = Found (id' e) (FoundEvent (summary e))) \<and>
          (length ex > 1 \<longrightarrow> r = MultipleFound (EventOptions ex ''exact title matches'')) \<and>
          (ex = [] \<and> pa = [e] \<longrightarrow> r = Found (id' e) (FoundEvent (summary e))) \<and>
          (ex = [] \<and> length pa > 1 \<longrightarrow>
             r = MultipleFound (EventOptions pa ''partial title matches'')) \<and>
          (ex = [] \<and> pa = [] \<and> ti = [e] \<longrightarrow>
             r = Found (id' e) (FoundEvent (summary e))) \<and>
          (ex = [] \<and> pa = [] \<and> length ti > 1 \<longrightarrow>
             r = MultipleFound (EventOptions ti ''time matches'')) \<and>
          (ex = [] \<and> pa = [] \<and> ti = [] \<longrightarrow> r = NotFound (CouldNotFind q)))"
  by (simp add: resolveEvent_def stage_def Let_def)

lemma sync_examples:
  "resolveEvent h (Some ''sync'') [teamSync, syncWithBob] =
     MultipleFound (EventOptions [teamSync, syncWithBob] ''partial title matches'')"
  "resolveEvent h (Some ''Team Sync'') [teamSync, syncWithBob] =
     Found (id' teamSync) (FoundEvent ''Team Sync'')"
  "exactMatches (toLowerCase ''Team Sync'') [teamSync, syncWithBob] = [teamSync]"
  "partialMatches (toLowerCase ''Team Sync'') [teamSync, syncWithBob] = [teamSync]"
  by code_simp+

text \<open>
  C4.  Resolution goes by stages.  For a query that is not empty: one exact title match is
  found and several are put to the user, whatever the later stages would give; the
  substring stage decides only when there is no exact match, and the time-of-day stage only
  when there is neither; with no match at all the event is not found.  For the events
  titled \<open>Team Sync\<close> and \<open>Sync with Bob\<close>, the query \<open>sync\<close> is ambiguous between
  both, and the query \<open>Team Sync\<close> finds the first by its exact title, though the
  substring stage matches it as well.  A missing or empty query is not found, whatever
  the events.
\<close>

theorem resolveEvent_staged:
  "(q \<noteq> [] \<longrightarrow>
      (let ex = exactMatches (toLowerCase q) events;
           pa = partialMatches (toLowerCase q) events;
           ti = findEventsByTime h q events;
           r = resolveEvent h (Some q) events
       in (ex = [e] \<longrightarrow> r = Found (id' e) (FoundEvent (summary e))) \<and>
          (length ex > 1 \<longrightarrow> r = MultipleFound (EventOptions ex ''exact title matches'')) \<and>
          (ex = [] \<and> pa = [e] \<longrightarrow> r = Found (id' e) (FoundEvent (summary e))) \<and>
          (ex = [] \<and> length pa > 1 \<longrightarrow>
             r = MultipleFound (EventOptions pa ''partial title matches'')) \<and>
          (ex = [] \<and> pa = [] \<and> ti = [e] \<longrightarrow>
             r = Found (id' e) (FoundEvent (summary e))) \<and>
          (ex = [] \<and> pa = [] \<and> length ti > 1 \<longrightarrow>
             r = MultipleFound (EventOptions ti ''time matches'')) \<and>
          (ex = [] \<and> pa = [] \<and> ti = [] \<longrightarrow> r = NotFound (CouldNotFind q)))) \<and>
   resolveEvent h (Some ''sync'') [teamSync, syncWithBob] =
     MultipleFound (EventOptions [teamSync, syncWithBob] ''partial title matches'') \<and>
   resolveEvent h (Some ''Team Sync'') [teamSync, syncWithBob] =
     Found (id' teamSync) (FoundEvent ''Team Sync'') \<and>
   exactMatches (toLowerCase ''Team Sync'') [teamSync, syncWithBob] = [teamSync] \<and>
   partialMatches (toLowerCase ''Team Sync'') [teamSync, syncWithBob] = [teamSync] \<and>
   resolveEvent h None events = NotFound PleaseSpecify \<and>
   resolveEvent h (Some []) events = NotFound PleaseSpecify"
  using resolveEvent_stages [of q events h e] sync_examples
  by (simp add: resolveEvent_def)

lemma twopm_facts:
  "exactMatches (toLowerCase ''my 2pm'') [teamSync, syncWithBob] = []"
  "partialMatches (toLowerCase ''my 2pm'') [teamSync, syncWithBob] = []"
  "findEventsByTime utcHost ''my 2pm'' [teamSync, syncWithBob] = [syncWithBob]"
  "summary syncWithBob = ''Sync with Bob''"
  "id' syncWithBob = ''0q3mb1p4c1d2e5ab''"
  by code_simp+

theorem resolveEvent_staged_witness:
  "''my 2pm'' \<noteq> [] \<and>
   exactMatches (toLowerCase ''my 2pm'') [teamSync, syncWithBob] = [] \<and>
   partialMatches (toLowerCase ''my 2pm'') [teamSync, syncWithBob] = [] \<and>
   findEventsByTime utcHost ''my 2pm'' [teamSync, syncWithBob] = [syncWithBob] \<and>
   resolveEvent utcHost (Some ''my 2pm'') [teamSync, syncWithBob] =
     Found ''0q3mb1p4c1d2e5ab'' (FoundEvent ''Sync with Bob'')"
  using resolveEvent_staged [of "''my 2pm''" "[teamSync, syncWithBob]" utcHost syncWithBob]
    twopm_facts
  by (simp add: Let_def)

lemma exactMatches_relabel:
  "exactMatches q (map (\<lambda>e. e\<lparr>id' := f e\<rparr>) es) = map (\<lambda>e. e\<lparr>id' := f e\<rparr>) (exactMatches q es)"
  by (simp add: exactMatches_def filter_map o_def)

lemma partialMatches_relabel:
  "partialMatches q (map (\<lambda>e. e\<lparr>id' := f e\<rparr>) es) = map (\<lambda>e. e\<lparr>id' := f e\<rparr>) (partialMatches q es)"
  by (simp add: partialMatches_def filter_map o_def)

lemma findEventsByTime_relabel:
  "findEventsByTime h q (map (\<lambda>e. e\<lparr>id' := f e\<rparr>) es) =
     map (\<lambda>e. e\<lparr>id' := f e\<rparr>) (findEventsByTime h q es)"
  by (simp add: findEventsByTime_def filter_map o_def Let_def split: option.splits)

lemma resolveEvent_relabel:
  "(resolveEvent h q (map (\<lambda>e. e\<lparr>id' := f e\<rparr>) es) = NotFound m) =
   (resolveEvent h q es = NotFound m)"
  by (simp add: resolveEvent_def stage_def Let_def exactMatches_relabel partialMatches_relabel
        findEventsByTime_relabel split: option.splits)

lemma resolveEvent_no_match:
  assumes "q \<noteq> []"
    and "\<forall>e \<in> set events.
           toLowerCase (summary e) \<noteq> toLowerCase q \<and>
           \<not> includesStr (toLowerCase (summary e)) (toLowerCase q) \<and>
           \<not> includesStr (toLowerCase q) (toLowerCase (summary e))"
    and "findEventsByTime h q events = []"
  shows "resolveEvent h (Some q) events = NotFound (CouldNotFind q)"
proof -
  from assms(2) have "exactMatches (toLowerCase q) events = []"
    by (auto simp: exactMatches_def filter_empty_conv)
  moreover from assms(2) have "partialMatches (toLowerCase q) events = []"
    by (auto simp: partialMatches_def filter_empty_conv)
  ultimately show ?thesis using assms(1,3)
    by (simp add: resolveEvent_def stage_def)
qed

text \<open>
  C9.  The identification of an update or delete request, be it the event identifier, the
  event title or the summary of the request, is matched against titles and start times
  only.  When it equals no title, contains no title, is contained in none, and matches no
  start time, the event is not found, and both handlers reply so without a call to the
  backend; whether a query is found does not change when the identifiers of the events are
  replaced by any others.  The witness is a request whose event identifier is the
  identifier of an event of the list.
\<close>

theorem identifier_is_never_compared:
  assumes "identification args = Some q" and "q \<noteq> []"
    and "\<forall>e \<in> set events.
           toLowerCase (summary e) \<noteq> toLowerCase q \<and>
           \<not> includesStr (toLowerCase (summary e)) (toLowerCase q) \<and>
           \<not> includesStr (toLowerCase q) (toLowerCase (summary e))"
    and "findEventsByTime h q events = []"
  shows "resolveEvent h (identification args) events = NotFound (CouldNotFind q) \<and>
         deleteCalendarEvent h be args events = (Resolution (CouldNotFind q), []) \<and>
         (validateEventUpdate args = [] \<longrightarrow>
            updateCalendarEvent h be args events = (Resolution (CouldNotFind q), [])) \<and>
         (\<forall>f m. (resolveEvent h (identification args) (map (\<lambda>e. e\<lparr>id' := f e\<rparr>) events)
                    = NotFound m) =
                 (resolveEvent h (identification args) events = NotFound m))"
proof -
  from resolveEvent_no_match[OF assms(2,3,4)] assms(1)
  have r: "resolveEvent h (identification args) events = NotFound (CouldNotFind q)" by simp
  from assms(1,2) have v: "validateEventDelete args = []"
    by (auto simp: validateEventDelete_def identification_def orElse_def split: if_splits)
  from r v show ?thesis
    by (simp add: deleteCalendarEvent_def updateCalendarEvent_def resolveEvent_relabel)
qed

lemma byId_facts:
  "identification relocateById = Some ''7kukuqrfedlm2f9t''"
  "''7kukuqrfedlm2f9t'' \<noteq> []"
  "\<forall>e \<in> set [teamSync, syncWithBob].
           toLowerCase (summary e) \<noteq> toLowerCase ''7kukuqrfedlm2f9t'' \<and>
           \<not> includesStr (toLowerCase (summary e)) (toLowerCase ''7kukuqrfedlm2f9t'') \<and>
           \<not> includesStr (toLowerCase ''7kukuqrfedlm2f9t'') (toLowerCase (summary e))"
  "findEventsByTime utcHost ''7kukuqrfedlm2f9t'' [teamSync, syncWithBob] = []"
  "validateEventUpdate relocateById = []"
  "id' teamSync = ''7kukuqrfedlm2f9t''"
  by code_simp+

theorem identifier_is_never_compared_witness:
  "id' teamSync = ''7kukuqrfedlm2f9t'' \<and>
   updateCalendarEvent utcHost exampleBackend
     relocateById [teamSync, syncWithBob] = (Resolution (CouldNotFind ''7kukuqrfedlm2f9t''), []) \<and>
   deleteCalendarEvent utcHost exampleBackend
     relocateById [teamSync, syncWithBob] = (Resolution (CouldNotFind ''7kukuqrfedlm2f9t''), [])"
  using identifier_is_never_compared [OF byId_facts(1,2,3,4), of exampleBackend] byId_facts(5,6)
  by simp

subsection \<open>Statistics\<close>

lemma statsStep_wholeDay: "wholeDay e \<Longrightarrow> statsStep h e acc = Inr acc"
  by (cases acc) (simp add: statsStep_def wholeDay_def)

lemma statsLoop_wholeDay:
  "statsLoop h (filter (\<lambda>e. \<not> wholeDay e) events) acc = statsLoop h events acc"
proof (induction events arbitrary: acc)
  case Nil
  then show ?case by simp
next
  case (Cons e es)
  show ?case
  proof (cases "wholeDay e")
    case True
    with Cons show ?thesis by (simp add: statsStep_wholeDay)
  next
    case False
    with Cons show ?thesis by (simp split: sum.splits)
  qed
qed

text \<open>
  The guard on precise times does its part: removing the whole-day events from an event
  list leaves the total hours and the per-day counts of the statistics as they are (and
  the error, when the statistics raise one).
\<close>

lemma stats_hours_and_days_ignore_whole_day:
  "map_sum id (\<lambda>st. (totalHours st, meetingsByDay st))
     (calculateMeetingStats h (filter (\<lambda>e. \<not> wholeDay e) events)) =
   map_sum id (\<lambda>st. (totalHours st, meetingsByDay st)) (calculateMeetingStats h events)"
  by (auto simp: calculateMeetingStats_def statsLoop_wholeDay Let_def split: sum.splits)

text \<open>
  C3.  Whole-day events are meant to contribute to no component of the statistics, so that
  removing them changes nothing.  With a one-hour review and a whole-day holiday the
  statistics count two meetings of 30 minutes on average; without the holiday, one meeting
  of 60 minutes.  The holiday is kept out of the minutes and of the per-day counts by the
  guard on precise times; the number of meetings is the length of the whole list, taken
  outside the guard, and the average divides the minutes by it.
\<close>

theorem stats_count_whole_day_events:
  "wholeDay holiday \<and> \<not> wholeDay review \<and>
   filter (\<lambda>e. \<not> wholeDay e) [review, holiday] = [review] \<and>
   calculateMeetingStats utcHost [review, holiday] =
     Inr \<lparr>totalMeetings = 2, totalHours = Some 1, averageMeetingDuration = Some 30,
          meetingsByDay = [(''2024-01-15'', 1)]\<rparr> \<and>
   calculateMeetingStats utcHost [review] =
     Inr \<lparr>totalMeetings = 1, totalHours = Some 1, averageMeetingDuration = Some 60,
          meetingsByDay = [(''2024-01-15'', 1)]\<rparr>"
  by code_simp

text \<open>The key that the statistics use is the UTC date of the start.\<close>

lemma stats_single_event_key:
  assumes "dateTime (start e) = Some s" "s \<noteq> []" "truthy (dateTime (end' e))"
    and "newDate h s = Some t"
  shows "map_sum id meetingsByDay (calculateMeetingStats h [e]) = Inr [(splitT0 (isoString t), 1)]"
  using assms
  by (simp add: calculateMeetingStats_def statsStep_def newDateOpt_def Let_def)

lemma specLocalDayKey_utc: "tzOffset h = 0 \<Longrightarrow> specLocalDayKey h t = splitT0 (isoString t)"
  by (simp add: specLocalDayKey_def)

text \<open>
  C7.  The per-day key of an event is meant to be the local calendar date of its start.
  On a host five hours behind UTC, a dinner that starts at 20:00 on 15 January local time
  is counted under 16 January, the UTC date of its start; and a review at 10:00 and the
  dinner, both on 15 January local time, are counted under two different keys.
\<close>

theorem stats_day_key_is_utc_date:
  "newDate nyHost ''2024-01-15T20:00:00-05:00'' = Some 1705366800000 \<and>
   newDate nyHost ''2024-01-15T10:00:00-05:00'' = Some 1705330800000 \<and>
   specLocalDayKey nyHost 1705366800000 = ''2024-01-15'' \<and>
   specLocalDayKey nyHost 1705330800000 = ''2024-01-15'' \<and>
   map_sum id meetingsByDay (calculateMeetingStats nyHost [nyDinner]) =
     Inr [(''2024-01-16'', 1)] \<and>
   map_sum id meetingsByDay (calculateMeetingStats nyHost [nyReview, nyDinner]) =
     Inr [(''2024-01-15'', 1), (''2024-01-16'', 1)]"
  by code_simp

subsection \<open>The times of an update\<close>

lemma truncNum_of_int: "truncNum (real_of_int k) = k"
  by (simp add: truncNum_def)

lemma dateOfNumber_of_int:
  assumes "\<bar>m\<bar> \<le> maxTime"
  shows "dateOfNumber (Some (real_of_int m)) = Some m"
proof -
  from assms have "\<bar>real_of_int m\<bar> \<le> real_of_int maxTime"
    by (metis of_int_abs of_int_le_iff)
  then show ?thesis by (simp add: dateOfNumber_def truncNum_of_int)
qed

lemma dateOfNumber_beyond:
  assumes "maxTime < m"
  shows "dateOfNumber (Some (real_of_int m)) = None"
proof -
  from assms have "real_of_int maxTime < real_of_int m" by (simp only: of_int_less_iff)
  moreover have "0 \<le> real_of_int maxTime" by (simp add: maxTime_def)
  ultimately have "\<not> \<bar>real_of_int m\<bar> \<le> real_of_int maxTime" by linarith
  then show ?thesis by (simp add: dateOfNumber_def)
qed

lemma maxTime_double: "\<bar>m\<bar> \<le> maxTime \<Longrightarrow> \<bar>m\<bar> < 2 ^ 53"
  by (simp add: maxTime_def)

text \<open>A minute count below \<open>2^53\<close> is a double.\<close>

lemma numOfNat_exact:
  assumes "int n < 2 ^ 53"
  shows "numOfNat (Some n) = Some (real_of_int (int n))"
proof -
  from assms have "\<bar>int n\<bar> < 2 ^ 53" by simp
  from toDouble_of_int[OF this] show ?thesis by simp
qed

text \<open>
  \<open>new Date(t + minutes * 60 * 1000)\<close> for a whole number of minutes: exact, as long as
  the milliseconds are below \<open>2^53\<close>; the invalid date when the sum is past the largest
  time value.
\<close>

lemma sum_after_minutes:
  assumes "\<bar>k * 60000\<bar> < 2 ^ 53" "\<bar>t + k * 60000\<bar> < 2 ^ 53"
  shows "numAdd (getTime (Some t)) (numTimes (numTimes (Some (real_of_int k)) 60) 1000)
           = Some (real_of_int (t + k * 60000))"
proof -
  from assms(1) have k60: "\<bar>k * 60\<bar> < 2 ^ 53" by (simp add: abs_mult)
  have "real_of_int k * 60 = real_of_int (k * 60)" by simp
  then have a: "toDouble (real_of_int k * 60) = real_of_int (k * 60)"
    using toDouble_of_int[OF k60] by (simp only:)
  have "real_of_int (k * 60) * 1000 = real_of_int (k * 60000)" by simp
  then have b: "toDouble (real_of_int (k * 60) * 1000) = real_of_int (k * 60000)"
    using toDouble_of_int[OF assms(1)] by (simp only:)
  have "real_of_int t + real_of_int (k * 60000) = real_of_int (t + k * 60000)" by simp
  then have c: "toDouble (real_of_int t + real_of_int (k * 60000)) = real_of_int (t + k * 60000)"
    using toDouble_of_int[OF assms(2)] by (simp only:)
  show ?thesis
    by (simp only: getTime.simps numTimes.simps numAdd.simps a b c)
qed

lemma end_after_minutes:
  assumes "\<bar>k * 60000\<bar> < 2 ^ 53" "\<bar>t + k * 60000\<bar> \<le> maxTime"
  shows "dateOfNumber
           (numAdd (getTime (Some t)) (numTimes (numTimes (Some (real_of_int k)) 60) 1000))
           = Some (t + k * 60000)"
  by (simp only: sum_after_minutes[OF assms(1) maxTime_double[OF assms(2)]]
        dateOfNumber_of_int[OF assms(2)])

lemma end_beyond_range:
  assumes "\<bar>k * 60000\<bar> < 2 ^ 53" "\<bar>t + k * 60000\<bar> < 2 ^ 53" "maxTime < t + k * 60000"
  shows "dateOfNumber
           (numAdd (getTime (Some t)) (numTimes (numTimes (Some (real_of_int k)) 60) 1000))
           = None"
  by (simp only: sum_after_minutes[OF assms(1,2)] dateOfNumber_beyond[OF assms(3)])

text \<open>The minutes of an existing event that lasts a whole number of minutes.\<close>

lemma existingDuration_whole:
  assumes "dateTime (start ex) = Some s0" "s0 \<noteq> []" "dateTime (end' ex) = Some e0" "e0 \<noteq> []"
    and "newDate h s0 = Some ts" "newDate h e0 = Some te"
    and "te - ts = k * 60000" "\<bar>te - ts\<bar> < 2 ^ 53"
  shows "existingDurationMinutes h ex = Some (real_of_int k)"
proof -
  have "real_of_int te - real_of_int ts = real_of_int (te - ts)" by simp
  then have sub: "toDouble (real_of_int te - real_of_int ts) = real_of_int (k * 60000)"
    using toDouble_of_int[OF assms(8)] assms(7) by (simp only:)
  from assms(7,8) have k: "\<bar>k\<bar> < 2 ^ 53" by (simp add: abs_mult)
  have "real_of_int (k * 60000) / 60000 = real_of_int k" by simp
  then have quot: "toDouble (real_of_int (k * 60000) / 60000) = real_of_int k"
    using toDouble_of_int[OF k] by (simp only:)
  have "existingDurationMinutes h ex =
          numDiv (numSub (getTime (Some te)) (getTime (Some ts))) 60000"
    using assms(1-6) by (simp add: existingDurationMinutes_def newDateOpt_def Let_def)
  also have "\<dots> = Some (real_of_int k)"
    by (simp only: getTime.simps numSub.simps numDiv.simps sub quot)
  finally show ?thesis .
qed

lemma isoTime_valid: "isoTime h (Some t) = Inr (isoOf h t)"
  by (simp add: isoTime_def isoOf_def)

lemma isoTime_invalid: "isoTime h None = Inl RangeError"
  by (simp add: isoTime_def)

text \<open>
  What does hold of the times of the payload, for an existing event with a precise start
  and end that the host reads.  With a new start and neither end nor duration: the new
  start and an end that lies the existing duration after it, when that duration is a whole
  number of minutes and the end is a time value.
\<close>

lemma update_start_alone:
  assumes "dateTime (start ex) = Some s0" "s0 \<noteq> []" "dateTime (end' ex) = Some e0" "e0 \<noteq> []"
    and "newDate h s0 = Some ts" "newDate h e0 = Some te"
    and "te - ts = k * 60000" "\<bar>te - ts\<bar> < 2 ^ 53"
    and "truthy (arg_startTime args)" "\<not> truthy (arg_endTime args)"
      "\<not> truthy (arg_duration args)"
    and "parseDateTime h (the (arg_startTime args)) = Some t"
    and "\<bar>t + (te - ts)\<bar> \<le> maxTime"
  shows "updateEventData h args ex =
           Inr (mergedFields args ex\<lparr>data_start := Some (isoOf h t),
                                      data_end := Some (isoOf h (t + (te - ts)))\<rparr>)"
proof -
  note d = existingDuration_whole[OF assms(1-8)]
  from assms(7,8) have b: "\<bar>k * 60000\<bar> < 2 ^ 53" by simp
  from assms(7,13) have r: "\<bar>t + k * 60000\<bar> \<le> maxTime" by simp
  have e: "dateOfNumber
             (numAdd (getTime (Some t))
                (numTimes (numTimes (existingDurationMinutes h ex) 60) 1000))
           = Some (t + (te - ts))"
    unfolding d using end_after_minutes[OF b r] assms(7) by (simp only:)
  show ?thesis
    using assms(9-12)
    by (simp add: updateEventData_def timeUpdates_def durationOverride_def Let_def
          isoTime_valid e
          del: getTime.simps numAdd.simps numTimes.simps)
qed

text \<open>
  The same for every duration, whole minutes or not, when the new start lies sixteen
  durations or more after the first instant of 1970.
\<close>

lemma existingDuration_precise:
  assumes "dateTime (start ex) = Some s0" "s0 \<noteq> []" "dateTime (end' ex) = Some e0" "e0 \<noteq> []"
    and "newDate h s0 = Some ts" "newDate h e0 = Some te"
    and "\<bar>te - ts\<bar> < 2 ^ 53"
  shows "existingDurationMinutes h ex = Some (toDouble (real_of_int (te - ts) / 60000))"
proof -
  have "real_of_int te - real_of_int ts = real_of_int (te - ts)" by simp
  then have sub: "toDouble (real_of_int te - real_of_int ts) = real_of_int (te - ts)"
    using toDouble_of_int[OF assms(7)] by (simp only:)
  have "existingDurationMinutes h ex =
          numDiv (numSub (getTime (Some te)) (getTime (Some ts))) 60000"
    using assms(1-6) by (simp add: existingDurationMinutes_def newDateOpt_def Let_def)
  also have "\<dots> = Some (toDouble (real_of_int (te - ts) / 60000))"
    by (simp only: getTime.simps numSub.simps numDiv.simps sub)
  finally show ?thesis .
qed

lemma update_start_alone_later:
  assumes "dateTime (start ex) = Some s0" "s0 \<noteq> []" "dateTime (end' ex) = Some e0" "e0 \<noteq> []"
    and "newDate h s0 = Some ts" "newDate h e0 = Some te"
    and "truthy (arg_startTime args)" "\<not> truthy (arg_endTime args)"
      "\<not> truthy (arg_duration args)"
    and "parseDateTime h (the (arg_startTime args)) = Some t"
    and "0 \<le> te - ts" "16 * (te - ts) \<le> t" "t + (te - ts) \<le> maxTime"
  shows "updateEventData h args ex =
           Inr (mergedFields args ex\<lparr>data_start := Some (isoOf h t),
                                      data_end := Some (isoOf h (t + (te - ts)))\<rparr>)"
proof -
  from assms(11-13) have b: "\<bar>te - ts\<bar> < 2 ^ 53" by (simp add: maxTime_def)
  note d = existingDuration_precise[OF assms(1-6) b]
  from assms(13) have r: "t + (te - ts) \<le> 8640000000000000" by (simp add: maxTime_def)
  from assms(11-13) have r': "\<bar>t + (te - ts)\<bar> \<le> maxTime" by simp
  have e: "dateOfNumber
             (numAdd (getTime (Some t))
                (numTimes (numTimes (existingDurationMinutes h ex) 60) 1000))
           = Some (t + (te - ts))"
    unfolding d
    by (simp only: getTime.simps numTimes.simps numAdd.simps
          sum_far_from_epoch[OF assms(11,12) r] dateOfNumber_of_int[OF r'])
  show ?thesis
    using assms(7-10)
    by (simp add: updateEventData_def timeUpdates_def durationOverride_def Let_def
          isoTime_valid e
          del: getTime.simps numAdd.simps numTimes.simps)
qed

text \<open>With a new end and no new start: the existing start and the new end.\<close>

lemma update_end_alone:
  assumes "\<not> truthy (arg_startTime args)" "truthy (arg_endTime args)"
  shows "\<exists>t. parseDateTime h (the (arg_endTime args)) = Some t \<and>
             updateEventData h args ex =
               Inr (mergedFields args ex\<lparr>data_start := Some (start ex),
                                          data_end := Some (isoOf h t)\<rparr>)"
proof -
  obtain t where t: "parseDateTime h (the (arg_endTime args)) = Some t"
    using parseDateTime_valid by blast
  with assms show ?thesis
    by (simp add: updateEventData_def timeUpdates_def durationOverride_def Let_def
          isoTime_valid)
qed

text \<open>With neither: the existing start and end.\<close>

lemma update_no_times:
  assumes "\<not> truthy (arg_startTime args)" "\<not> truthy (arg_endTime args)"
  shows "updateEventData h args ex =
           Inr (mergedFields args ex\<lparr>data_start := Some (start ex),
                                      data_end := Some (end' ex)\<rparr>)"
  using assms
  by (simp add: updateEventData_def timeUpdates_def durationOverride_def Let_def)

text \<open>
  With a new start and a duration of \<open>n\<close> minutes: an end that lies \<open>n\<close> minutes after the
  new start, whatever the existing event is, when that end is a time value; and no payload
  at all, but a \<open>RangeError\<close>, when it is past the largest time value (and below
  \<open>2^53\<close>, where the sum is a double).
\<close>

lemma update_start_and_duration:
  assumes "truthy (arg_startTime args)" "truthy (arg_duration args)"
    and "parseDateTime h (the (arg_startTime args)) = Some t"
    and "parseDurationToMinutes (the (arg_duration args)) = Inr (Some n)"
    and "int n * 60000 < 2 ^ 53" "\<bar>t + int n * 60000\<bar> \<le> maxTime"
  shows "updateEventData h args ex =
           Inr (mergedFields args ex\<lparr>data_start := Some (isoOf h t),
                                      data_end := Some (isoOf h (t + int n * 60000))\<rparr>)"
proof -
  from assms(5) have n: "int n < 2 ^ 53" by simp
  from assms(5) have b: "\<bar>int n * 60000\<bar> < 2 ^ 53" by simp
  have e: "dateOfNumber
             (numAdd (getTime (Some t)) (numTimes (numTimes (numOfNat (Some n)) 60) 1000))
           = Some (t + int n * 60000)"
    unfolding numOfNat_exact[OF n] by (rule end_after_minutes[OF b assms(6)])
  show ?thesis
    using assms(1-4)
    by (simp add: updateEventData_def timeUpdates_def durationOverride_def Let_def
          isoTime_valid e
          del: getTime.simps numAdd.simps numTimes.simps numOfNat.simps)
qed

lemma update_duration_beyond_range:
  assumes "truthy (arg_startTime args)" "truthy (arg_duration args)"
    and "parseDateTime h (the (arg_startTime args)) = Some t"
    and "parseDurationToMinutes (the (arg_duration args)) = Inr (Some n)"
    and "int n * 60000 < 2 ^ 53" "\<bar>t + int n * 60000\<bar> < 2 ^ 53"
      "maxTime < t + int n * 60000"
  shows "updateEventData h args ex = Inl RangeError"
proof -
  from assms(5) have n: "int n < 2 ^ 53" by simp
  from assms(5) have b: "\<bar>int n * 60000\<bar> < 2 ^ 53" by simp
  have e: "dateOfNumber
             (numAdd (getTime (Some t)) (numTimes (numTimes (numOfNat (Some n)) 60) 1000))
           = None"
    unfolding numOfNat_exact[OF n] by (rule end_beyond_range[OF b assms(6,7)])
  show ?thesis
    using assms(1-4)
    by (simp add: updateEventData_def timeUpdates_def durationOverride_def Let_def
          isoTime_valid isoTime_invalid e
          del: getTime.simps numAdd.simps numTimes.simps numOfNat.simps)
qed

text \<open>
  Moved to 2pm for three thousand million hours, \<open>Team Sync\<close> gets no payload: the
  end is past the largest time value, the \<open>Date\<close> made of it is invalid and
  \<open>toISOString\<close> raises; the handler replies that it could not update, after the one
  call that fetched the event.
\<close>

lemma ages_facts:
  "rxMatch durationPattern 2 ''3000000000 hours'' =
     Some [None, Some ''3000000000'', Some ''hours'']"
  "startsWith (toLowerCase ''hours'') ''h''"
  "parseDateTime utcHost ''today at 2pm'' = Some 1705327200000"
  "truthy (arg_startTime moveTo2pmForAges)" "truthy (arg_duration moveTo2pmForAges)"
  "the (arg_startTime moveTo2pmForAges) = ''today at 2pm''"
  "the (arg_duration moveTo2pmForAges) = ''3000000000 hours''"
  "toDouble 180000000000 = 180000000000"
  "toDouble 10800000000000 = 10800000000000"
  "toDouble 10800000000000000 = 10800000000000000"
  "toDouble 10801705327200000 = 10801705327200000"
  "validateEventUpdate moveTo2pmForAges = []"
  "getEvent exampleBackend ''7kukuqrfedlm2f9t'' = Some teamSync"
  "resolveEvent utcHost (identification moveTo2pmForAges) [teamSync, syncWithBob] =
     Found ''7kukuqrfedlm2f9t'' (FoundEvent ''Team Sync'')"
  by code_simp+

lemma ages_amount: "parseInt ''3000000000'' = Some 3000000000"
  by (simp add: parseInt_def isDigit_def digitValue_def)

lemma ages_minutes: "parseDurationToMinutes ''3000000000 hours'' = Inr (Some 180000000000)"
  unfolding parseDurationToMinutes_def ages_facts(1)
  by (simp add: ages_facts(2) grp_def ages_amount Let_def)

lemma update_for_ages_raises:
  "updateEventData utcHost moveTo2pmForAges teamSync = Inl RangeError"
  using ages_facts(4,5)
  by (simp add: updateEventData_def timeUpdates_def durationOverride_def Let_def isoTime_def
       ages_facts(3,6-11) ages_minutes dateOfNumber_def maxTime_def)

lemma update_for_ages_fails:
  "updateCalendarEvent utcHost exampleBackend moveTo2pmForAges [teamSync, syncWithBob] =
     (UpdateFailed, [Get ''7kukuqrfedlm2f9t''])"
  by (simp add: updateCalendarEvent_def ages_facts(12-14) update_for_ages_raises)

text \<open>
  The four cases on \<open>Team Sync\<close>, from 10:00 to 10:30: moved to 2pm it ends at 14:30;
  given the end 4pm it keeps its start; with a new location alone it keeps both times;
  moved to 2pm for 45 minutes it ends at 14:45.
\<close>

lemma update_examples:
  "updateEventData utcHost moveTo2pm teamSync =
     Inr \<lparr>data_summary = Some ''Team Sync'', data_description = None, data_attendees = None,
          data_location = None,
          data_start = Some \<lparr>dateTime = Some ''2024-01-15T14:00:00.000Z'', date = None,
                              timeZone = Some ''UTC''\<rparr>,
          data_end = Some \<lparr>dateTime = Some ''2024-01-15T14:30:00.000Z'', date = None,
                            timeZone = Some ''UTC''\<rparr>,
          data_reminders = None\<rparr>"
  "updateEventData utcHost endAt4pm teamSync =
     Inr \<lparr>data_summary = Some ''Team Sync'', data_description = None, data_attendees = None,
          data_location = None,
          data_start = Some \<lparr>dateTime = Some ''2024-01-15T10:00:00Z'', date = None,
                              timeZone = None\<rparr>,
          data_end = Some \<lparr>dateTime = Some ''2024-01-15T16:00:00.000Z'', date = None,
                            timeZone = Some ''UTC''\<rparr>,
          data_reminders = None\<rparr>"
  "updateEventData utcHost relocateById teamSync =
     Inr \<lparr>data_summary = Some ''Team Sync'', data_description = None, data_attendees = None,
          data_location = Some ''Room 2'',
          data_start = Some \<lparr>dateTime = Some ''2024-01-15T10:00:00Z'', date = None,
                              timeZone = None\<rparr>,
          data_end = Some \<lparr>dateTime = Some ''2024-01-15T10:30:00Z'', date = None,
                            timeZone = None\<rparr>,
          data_reminders = None\<rparr>"
  "parseDurationToMinutes ''45 minutes'' = Inr (Some 45)"
  "updateEventData utcHost moveTo2pmFor45 teamSync =
     Inr \<lparr>data_summary = Some ''Team Sync'', data_description = None, data_attendees = None,
          data_location = None,
          data_start = Some \<lparr>dateTime = Some ''2024-01-15T14:00:00.000Z'', date = None,
                              timeZone = Some ''UTC''\<rparr>,
          data_end = Some \<lparr>dateTime = Some ''2024-01-15T14:45:00.000Z'', date = None,
                            timeZone = Some ''UTC''\<rparr>,
          data_reminders = None\<rparr>"
  by code_simp+

text \<open>
  C2.  With a new start alone, the end of the payload is meant to lie the existing duration
  after the new start.  The check-in lasts from 10:00:00 to 10:02:03, which is 123000
  milliseconds; moved to the first instant of 1970, it should end at 00:02:03.000.  The
  payload ends at 00:02:02.999: the duration is kept in minutes, the quotient by 60000 is
  rounded to a double, its product with 60 and with 1000 is 122999.99999999999, and the
  \<open>Date\<close> made of the sum cuts the fraction off.  The handler sends that payload.
\<close>

theorem update_loses_a_millisecond:
  "newDate utcHost ''2024-01-15T10:00:00Z'' = Some 1705312800000 \<and>
   newDate utcHost ''2024-01-15T10:02:03Z'' = Some 1705312923000 \<and>
   parseDateTime utcHost ''1970-01-01T00:00:00Z'' = Some 0 \<and>
   isoString (0 + (1705312923000 - 1705312800000)) = ''1970-01-01T00:02:03.000Z'' \<and>
   updateEventData utcHost moveToEpoch checkIn =
     Inr \<lparr>data_summary = Some ''Check-in'', data_description = None, data_attendees = None,
          data_location = None,
          data_start = Some \<lparr>dateTime = Some ''1970-01-01T00:00:00.000Z'', date = None,
                              timeZone = Some ''UTC''\<rparr>,
          data_end = Some \<lparr>dateTime = Some ''1970-01-01T00:02:02.999Z'', date = None,
                            timeZone = Some ''UTC''\<rparr>,
          data_reminders = None\<rparr> \<and>
   snd (updateCalendarEvent utcHost checkInBackend moveToEpoch [checkIn]) =
     [Get ''ck01'',
      Update ''ck01''
        \<lparr>data_summary = Some ''Check-in'', data_description = None, data_attendees = None,
         data_location = None,
         data_start = Some \<lparr>dateTime = Some ''1970-01-01T00:00:00.000Z'', date = None,
                             timeZone = Some ''UTC''\<rparr>,
         data_end = Some \<lparr>dateTime = Some ''1970-01-01T00:02:02.999Z'', date = None,
                           timeZone = Some ''UTC''\<rparr>,
         data_reminders = None\<rparr>]"
  by code_simp

text \<open>
  The payload is what the handler sends: after a valid request has resolved to one event
  and the backend has returned it, the update carries the payload built from it.
\<close>

lemma updateCalendarEvent_sends:
  assumes "validateEventUpdate args = []"
    and "resolveEvent h (identification args) events = Found eventId m"
    and "getEvent be eventId = Some existingEvent"
    and "updateEventData h args existingEvent = Inr eventData"
  shows "snd (updateCalendarEvent h be args events) = [Get eventId, Update eventId eventData]"
  using assms by (simp add: updateCalendarEvent_def split: option.splits)

lemma moveTo2pm_sent:
  "snd (updateCalendarEvent utcHost exampleBackend moveTo2pm [teamSync, syncWithBob]) =
     [Get ''7kukuqrfedlm2f9t'',
      Update ''7kukuqrfedlm2f9t''
        \<lparr>data_summary = Some ''Team Sync'', data_description = None, data_attendees = None,
         data_location = None,
         data_start = Some \<lparr>dateTime = Some ''2024-01-15T14:00:00.000Z'', date = None,
                             timeZone = Some ''UTC''\<rparr>,
         data_end = Some \<lparr>dateTime = Some ''2024-01-15T14:30:00.000Z'', date = None,
                           timeZone = Some ''UTC''\<rparr>,
         data_reminders = None\<rparr>]"
  by code_simp

subsection \<open>Free slots\<close>

text \<open>
  C1.  Every slot is meant to lie within the day window.  With a dinner from 18:00 to 19:00
  and a call from 22:00 to 23:00, an hour asked for today between 9am and 5pm gives the slot
  from 09:00 to 10:00 and a second slot from 19:00 to 20:00, after the end of the window
  at 17:00: a gap before an event is measured from the cursor alone, and the end of the
  window is compared only after the last event.
\<close>

theorem findFreeSlots_leaves_window:
  "parseTimeRange utcHost ''9am-5pm'' (getTargetDate utcHost ''today'') =
     (Some 1705309200000, Some 1705338000000) \<and>
   findFreeSlots utcHost [dinner, lateCall] (Some 1705309200000) (Some 1705338000000) (Some 60) =
     [\<lparr>slotStart = Some 1705309200000, slotEnd = Some 1705312800000\<rparr>,
      \<lparr>slotStart = Some 1705345200000, slotEnd = Some 1705348800000\<rparr>] \<and>
   (1705338000000 :: int) < 1705345200000 \<and>
   isoString 1705338000000 = ''2024-01-15T17:00:00.000Z'' \<and>
   isoString 1705345200000 = ''2024-01-15T19:00:00.000Z'' \<and>
   isoString 1705348800000 = ''2024-01-15T20:00:00.000Z'' \<and>
   findAvailableTimeSlots utcHost hourToday [dinner, lateCall] =
     Inr (AvailableSlots
       [\<lparr>slotStart = Some 1705309200000, slotEnd = Some 1705312800000\<rparr>,
        \<lparr>slotStart = Some 1705345200000, slotEnd = Some 1705348800000\<rparr>])"
  by code_simp

text \<open>
  The sweep, step by step, on time values below \<open>2^52\<close> in magnitude (years within
  140000 of 1970): their differences are below \<open>2^53\<close> and so are doubles.
\<close>

lemma diff_exact:
  assumes "\<bar>a\<bar> < 2 ^ 52" "\<bar>c\<bar> < 2 ^ 52"
  shows "numSub (getTime (Some a)) (getTime (Some c)) = Some (real_of_int (a - c))"
proof -
  from assms have "\<bar>a - c\<bar> < 2 ^ 53" by simp
  from toDouble_of_int[OF this]
  have "toDouble (real_of_int a - real_of_int c) = real_of_int (a - c)" by simp
  then show ?thesis by (simp only: getTime.simps numSub.simps)
qed

text \<open>
  A gap that passes the test is long enough: the quotient by 60000 is rounded up by less
  than a millisecond's worth of a minute.
\<close>

lemma gap_sound:
  assumes "\<bar>a\<bar> < 2 ^ 52" "\<bar>c\<bar> < 2 ^ 52"
    and "numGe (numDiv (numSub (getTime (Some a)) (getTime (Some c))) 60000) (Some (real n))"
  shows "int n * 60000 \<le> a - c"
proof -
  define x where "x = real_of_int (a - c) / 60000"
  from assms(1,2) have "\<bar>a - c\<bar> < 2 ^ 53" by simp
  then have "\<bar>real_of_int (a - c)\<bar> < 2 ^ 53"
    by (metis of_int_abs of_int_less_iff of_int_numeral of_int_power)
  then have "\<bar>x\<bar> < 2 ^ 38" by (simp add: x_def)
  from toDouble_below[OF this] have up: "toDouble x \<le> x + 1 / 65536" .
  from assms(3) have "real n \<le> toDouble x"
    by (simp only: diff_exact[OF assms(1,2)] numDiv.simps numGe.simps x_def)
  with up have "real n \<le> x + 1 / 65536" by linarith
  then have "real n * 60000 < real_of_int (a - c) + 1" by (simp add: x_def field_simps)
  then have "real_of_int (int n * 60000) < real_of_int (a - c + 1)" by simp
  then have "int n * 60000 < a - c + 1" by (simp only: of_int_less_iff)
  then show ?thesis by simp
qed

lemma cursor_max:
  assumes "\<bar>c\<bar> < 2 ^ 52" "\<bar>b\<bar> < 2 ^ 52"
  shows "dateOfNumber (numMax (getTime (Some c)) (getTime (Some b))) = Some (max c b)"
proof -
  have m: "max (real_of_int c) (real_of_int b) = real_of_int (max c b)" by (simp add: max_def)
  from assms have "\<bar>max c b\<bar> \<le> maxTime" by (simp add: maxTime_def max_def)
  from dateOfNumber_of_int[OF this] show ?thesis
    by (simp only: getTime.simps numMax.simps m)
qed

lemma slot_end:
  assumes "\<bar>a\<bar> < 2 ^ 52" "\<bar>c\<bar> < 2 ^ 52" "int n * 60000 \<le> a - c"
  shows "dateOfNumber (numAdd (getTime (Some c)) (numTimes (numTimes (Some (real n)) 60) 1000))
           = Some (c + int n * 60000)"
proof -
  from assms have b: "\<bar>int n * 60000\<bar> < 2 ^ 53" by simp
  from assms have r: "\<bar>c + int n * 60000\<bar> \<le> maxTime" by (simp add: maxTime_def)
  have "real n = real_of_int (int n)" by simp
  with end_after_minutes[OF b r] show ?thesis by (simp only:)
qed

lemma slotStep_valid:
  assumes "\<bar>a\<bar> < 2 ^ 52" "\<bar>b\<bar> < 2 ^ 52" "\<bar>c\<bar> < 2 ^ 52"
  shows "slotStep (Some (real n)) (Some a, Some b) (slots, Some c) =
     (if numGe (numDiv (numSub (getTime (Some a)) (getTime (Some c))) 60000) (Some (real n))
      then slots @ [\<lparr>slotStart = Some c, slotEnd = Some (c + int n * 60000)\<rparr>]
      else slots,
      Some (max c b))"
proof (cases "numGe (numDiv (numSub (getTime (Some a)) (getTime (Some c))) 60000)
                (Some (real n))")
  case True
  note e = slot_end[OF assms(1,3) gap_sound[OF assms(1,3) True]]
  from True show ?thesis
    by (simp add: slotStep_def Let_def e cursor_max[OF assms(3,2)]
          del: getTime.simps numAdd.simps numTimes.simps numSub.simps numDiv.simps
               numMax.simps numGe.simps)
next
  case False
  then show ?thesis
    by (simp add: slotStep_def Let_def cursor_max[OF assms(3,2)]
          del: getTime.simps numAdd.simps numTimes.simps numSub.simps numDiv.simps
               numMax.simps numGe.simps)
qed

lemma set_insertBy: "set (insertBy cmp x ys) = insert x (set ys)"
  by (induction ys) auto

lemma set_sortBy: "set (sortBy cmp xs) = set xs"
  by (induction xs) (simp_all add: sortBy_def set_insertBy)

lemma length_insertBy: "length (insertBy cmp x ys) = Suc (length ys)"
  by (induction ys) auto

lemma length_sortBy: "length (sortBy cmp xs) = length xs"
  by (induction xs) (simp_all add: sortBy_def length_insertBy)

text \<open>The comparison of two starts is the sign of their difference.\<close>

lemma compare_starts:
  assumes "\<bar>a\<bar> < 2 ^ 52" "\<bar>c\<bar> < 2 ^ 52"
  shows "(numLe (numSub (getTime (Some a)) (getTime (Some c))) (Some 0) \<or>
          numSub (getTime (Some a)) (getTime (Some c)) = None) = (a \<le> c)"
  by (simp only: diff_exact[OF assms] numLe.simps) simp

lemma sorted_insertBy:
  assumes "\<forall>y \<in> set (x # ys). \<exists>a b. y = (Some a, Some b) \<and> \<bar>a\<bar> < 2 ^ 52"
    and "sorted_wrt (\<lambda>p q. the (fst p) \<le> the (fst q)) ys"
  shows "sorted_wrt (\<lambda>p q. the (fst p) \<le> (the (fst q) :: int))
           (insertBy (\<lambda>a b. numSub (getTime (fst a)) (getTime (fst b))) x ys)"
  using assms
proof (induction ys)
  case Nil
  then show ?case by simp
next
  case (Cons y ys)
  from Cons.prems(1) obtain a b a' b' where x: "x = (Some a, Some b)" and y: "y = (Some a', Some b')"
    and ba: "\<bar>a\<bar> < 2 ^ 52" and ba': "\<bar>a'\<bar> < 2 ^ 52"
    by auto
  note cmp = compare_starts[OF ba ba']
  show ?case
  proof (cases "a \<le> a'")
    case True
    have "insertBy (\<lambda>a b. numSub (getTime (fst a)) (getTime (fst b))) x (y # ys) = x # y # ys"
      using True cmp unfolding x y insertBy.simps fst_conv by (simp only: if_True)
    with True x y Cons.prems(2) show ?thesis by auto
  next
    case False
    have i: "insertBy (\<lambda>a b. numSub (getTime (fst a)) (getTime (fst b))) x (y # ys) =
             y # insertBy (\<lambda>a b. numSub (getTime (fst a)) (getTime (fst b))) x ys"
      using False cmp unfolding x y insertBy.simps fst_conv by (simp only: if_False)
    from Cons.prems have "sorted_wrt (\<lambda>p q. the (fst p) \<le> the (fst q))
           (insertBy (\<lambda>a b. numSub (getTime (fst a)) (getTime (fst b))) x ys)"
      by (intro Cons.IH) auto
    with False x y Cons.prems(2) show ?thesis unfolding i by (auto simp: set_insertBy)
  qed
qed

lemma sorted_sortBy:
  assumes "\<forall>y \<in> set xs. \<exists>a b. y = (Some a, Some b) \<and> \<bar>a\<bar> < 2 ^ 52"
  shows "sorted_wrt (\<lambda>p q. the (fst p) \<le> (the (fst q) :: int))
           (sortBy (\<lambda>a b. numSub (getTime (fst a)) (getTime (fst b))) xs)"
  using assms
proof (induction xs)
  case Nil
  then show ?case by (simp add: sortBy_def)
next
  case (Cons x xs)
  then have s: "sorted_wrt (\<lambda>p q. the (fst p) \<le> (the (fst q) :: int))
           (sortBy (\<lambda>a b. numSub (getTime (fst a)) (getTime (fst b))) xs)" by simp
  from Cons.prems have "\<forall>y \<in> set (x # sortBy (\<lambda>a b. numSub (getTime (fst a)) (getTime (fst b))) xs).
           \<exists>a b. y = (Some a, Some b) \<and> \<bar>a\<bar> < 2 ^ 52"
    by (simp add: set_sortBy)
  from sorted_insertBy[OF this s] show ?case by (simp add: sortBy_def)
qed

lemma sweep:
  assumes "\<forall>e \<in> set R. \<exists>a b. e = (Some a, Some b) \<and> \<bar>a\<bar> < 2 ^ 52 \<and> \<bar>b\<bar> < 2 ^ 52"
    and "sorted_wrt (\<lambda>p q. the (fst p) \<le> (the (fst q) :: int)) R"
    and "\<bar>c\<bar> < 2 ^ 52"
  shows "\<exists>new c'.
           foldl (\<lambda>acc event. slotStep (Some (real n)) event acc) (slots, Some c) R
             = (slots @ new, Some c') \<and>
           c \<le> c' \<and> \<bar>c'\<bar> < 2 ^ 52 \<and>
           (\<forall>e \<in> set R. the (snd e) \<le> c') \<and> length new \<le> length R \<and>
           (\<forall>s \<in> set new. \<exists>k.
              s = \<lparr>slotStart = Some k, slotEnd = Some (k + int n * 60000)\<rparr> \<and> c \<le> k \<and>
              (\<forall>e \<in> set R.
                 \<not> max k (the (fst e)) < min (k + int n * 60000) (the (snd e))))"
  using assms
proof (induction R arbitrary: slots c)
  case Nil
  then show ?case by simp
next
  case (Cons e R)
  from Cons.prems(1) obtain a b where e: "e = (Some a, Some b)"
    and ba: "\<bar>a\<bar> < 2 ^ 52" and bb: "\<bar>b\<bar> < 2 ^ 52" by auto
  note bc = Cons.prems(3)
  define g where
    "g = numGe (numDiv (numSub (getTime (Some a)) (getTime (Some c))) 60000) (Some (real n))"
  define first where "first = (if g
      then [\<lparr>slotStart = Some c, slotEnd = Some (c + int n * 60000)\<rparr>] else [])"
  from Cons.prems have
    r1: "\<forall>e \<in> set R. \<exists>a b. e = (Some a, Some b) \<and> \<bar>a\<bar> < 2 ^ 52 \<and> \<bar>b\<bar> < 2 ^ 52"
    and r2: "sorted_wrt (\<lambda>p q. the (fst p) \<le> (the (fst q) :: int)) R" by auto
  from bc bb have r3: "\<bar>max c b\<bar> < 2 ^ 52" by (simp add: max_def)
  from Cons.IH[OF r1 r2 r3, of "slots @ first"]
  obtain new c' where
    f: "foldl (\<lambda>acc event. slotStep (Some (real n)) event acc) (slots @ first, Some (max c b)) R
          = ((slots @ first) @ new, Some c')"
    and le: "max c b \<le> c'" and bc': "\<bar>c'\<bar> < 2 ^ 52"
    and ends: "\<forall>e \<in> set R. the (snd e) \<le> c'"
    and len: "length new \<le> length R"
    and sl: "\<forall>s \<in> set new. \<exists>k.
              s = \<lparr>slotStart = Some k, slotEnd = Some (k + int n * 60000)\<rparr> \<and> max c b \<le> k \<and>
              (\<forall>e \<in> set R.
                 \<not> max k (the (fst e)) < min (k + int n * 60000) (the (snd e)))"
    by blast
  have step: "slotStep (Some (real n)) e (slots, Some c) = (slots @ first, Some (max c b))"
    unfolding e slotStep_valid[OF ba bb bc] first_def g_def by simp
  from Cons.prems(2) e have later: "\<forall>r \<in> set R. a \<le> the (fst r)" by auto
  have "foldl (\<lambda>acc event. slotStep (Some (real n)) event acc) (slots, Some c) (e # R)
          = (slots @ (first @ new), Some c')"
    using f step by simp
  moreover have "c \<le> c'" using le by simp
  moreover have "\<forall>x \<in> set (e # R). the (snd x) \<le> c'" using le ends e by simp
  moreover have "length (first @ new) \<le> length (e # R)" using len by (simp add: first_def)
  moreover have "\<forall>s \<in> set (first @ new). \<exists>k.
              s = \<lparr>slotStart = Some k, slotEnd = Some (k + int n * 60000)\<rparr> \<and> c \<le> k \<and>
              (\<forall>x \<in> set (e # R).
                 \<not> max k (the (fst x)) < min (k + int n * 60000) (the (snd x)))"
  proof
    fix s assume "s \<in> set (first @ new)"
    then consider "s \<in> set first" | "s \<in> set new" by auto
    then show "\<exists>k. s = \<lparr>slotStart = Some k, slotEnd = Some (k + int n * 60000)\<rparr> \<and> c \<le> k \<and>
              (\<forall>x \<in> set (e # R).
                 \<not> max k (the (fst x)) < min (k + int n * 60000) (the (snd x)))"
    proof cases
      case 1
      then have g: g
        and s: "s = \<lparr>slotStart = Some c, slotEnd = Some (c + int n * 60000)\<rparr>"
        by (auto simp: first_def split: if_splits)
      from g have g': "int n * 60000 \<le> a - c"
        unfolding g_def by (rule gap_sound[OF ba bc])
      have "\<forall>x \<in> set (e # R).
                 \<not> max c (the (fst x)) < min (c + int n * 60000) (the (snd x))"
        using g' later e by auto
      with s show ?thesis by blast
    next
      case 2
      with sl obtain k where k: "s = \<lparr>slotStart = Some k, slotEnd = Some (k + int n * 60000)\<rparr>"
        "max c b \<le> k"
        "\<forall>e \<in> set R. \<not> max k (the (fst e)) < min (k + int n * 60000) (the (snd e))"
        by blast
      from k(2) have "\<not> max k (the (fst e)) < min (k + int n * 60000) (the (snd e))"
        using e by auto
      with k show ?thesis by auto
    qed
  qed
  ultimately show ?case using bc' by blast
qed


text \<open>
  What does hold of the slots, for a duration of \<open>n\<close> minutes, a window and events whose
  precise times the host reads as time values below \<open>2^52\<close> in magnitude: there is at
  most one slot for each timed event and one more; every slot is exactly \<open>n\<close> minutes
  long and starts at the start of the window or later; and no slot overlaps a timed event.
\<close>

lemma findFreeSlots_sound:
  assumes valid: "\<forall>e \<in> set events. truthy (dateTime (start e)) \<longrightarrow>
             (\<exists>a b. newDateOpt h (dateTime (start e)) = Some a \<and>
                    newDateOpt h (dateTime (end' e)) = Some b \<and>
                    \<bar>a\<bar> < 2 ^ 52 \<and> \<bar>b\<bar> < 2 ^ 52)"
    and window: "\<bar>ds\<bar> < 2 ^ 52" "\<forall>de. dayEnd = Some de \<longrightarrow> \<bar>de\<bar> < 2 ^ 52"
  shows "length (findFreeSlots h events (Some ds) dayEnd (Some (real n)))
           \<le> length (filter (\<lambda>e. truthy (dateTime (start e))) events) + 1 \<and>
         (\<forall>s \<in> set (findFreeSlots h events (Some ds) dayEnd (Some (real n))).
            \<exists>k. s = \<lparr>slotStart = Some k, slotEnd = Some (k + int n * 60000)\<rparr> \<and> ds \<le> k \<and>
                (\<forall>e \<in> set events. \<forall>a b.
                   truthy (dateTime (start e)) \<and>
                   newDateOpt h (dateTime (start e)) = Some a \<and>
                   newDateOpt h (dateTime (end' e)) = Some b \<longrightarrow>
                   \<not> max k a < min (k + int n * 60000) b))"
proof -
  define L where "L = map (\<lambda>event. (newDateOpt h (dateTime (start event)),
                                   newDateOpt h (dateTime (end' event))))
                        (filter (\<lambda>event. truthy (dateTime (start event))) events)"
  define R where "R = sortBy (\<lambda>a b. numSub (getTime (fst a)) (getTime (fst b))) L"
  from valid have vL: "\<forall>y \<in> set L. \<exists>a b. y = (Some a, Some b) \<and> \<bar>a\<bar> < 2 ^ 52 \<and> \<bar>b\<bar> < 2 ^ 52"
    by (auto simp: L_def)
  then have vR: "\<forall>y \<in> set R. \<exists>a b. y = (Some a, Some b) \<and> \<bar>a\<bar> < 2 ^ 52 \<and> \<bar>b\<bar> < 2 ^ 52"
    by (simp add: R_def set_sortBy)
  from vL have vL': "\<forall>y \<in> set L. \<exists>a b. y = (Some a, Some b) \<and> \<bar>a\<bar> < 2 ^ 52" by blast
  from sorted_sortBy[OF vL'] have sR: "sorted_wrt (\<lambda>p q. the (fst p) \<le> (the (fst q) :: int)) R"
    by (simp add: R_def)
  from sweep[OF vR sR window(1), of n "[]"]
  obtain new c' where
    f: "foldl (\<lambda>acc event. slotStep (Some (real n)) event acc) ([], Some ds) R
          = (new, Some c')"
    and le: "ds \<le> c'" and bc': "\<bar>c'\<bar> < 2 ^ 52"
    and ends: "\<forall>e \<in> set R. the (snd e) \<le> c'"
    and len: "length new \<le> length R"
    and sl: "\<forall>s \<in> set new. \<exists>k.
              s = \<lparr>slotStart = Some k, slotEnd = Some (k + int n * 60000)\<rparr> \<and> ds \<le> k \<and>
              (\<forall>e \<in> set R.
                 \<not> max k (the (fst e)) < min (k + int n * 60000) (the (snd e)))"
    by auto
  define g where
    "g = numGe (numDiv (numSub (getTime dayEnd) (getTime (Some c'))) 60000) (Some (real n))"
  define last where "last = (if g
      then [\<lparr>slotStart = Some c', slotEnd = Some (c' + int n * 60000)\<rparr>] else [])"
  have e: "dateOfNumber (numAdd (getTime (Some c'))
              (numTimes (numTimes (Some (real n)) 60) 1000)) = Some (c' + int n * 60000)" if g
  proof (cases dayEnd)
    case None
    with that show ?thesis by (simp add: g_def)
  next
    case (Some de)
    with window(2) have bde: "\<bar>de\<bar> < 2 ^ 52" by simp
    from that have "int n * 60000 \<le> de - c'"
      unfolding g_def Some by (rule gap_sound[OF bde bc'])
    from slot_end[OF bde bc' this] show ?thesis .
  qed
  have res: "findFreeSlots h events (Some ds) dayEnd (Some (real n)) = new @ last"
  proof (cases g)
    case True
    from e[OF True] True f show ?thesis
      unfolding g_def
      by (simp add: findFreeSlots_def Let_def L_def[symmetric] R_def[symmetric] last_def g_def
            del: getTime.simps numAdd.simps numTimes.simps numSub.simps numDiv.simps
                 numGe.simps)
  next
    case False
    with f show ?thesis
      unfolding g_def
      by (simp add: findFreeSlots_def Let_def L_def[symmetric] R_def[symmetric] last_def g_def
            del: getTime.simps numAdd.simps numTimes.simps numSub.simps numDiv.simps
                 numGe.simps)
  qed
  have lenR: "length R = length (filter (\<lambda>e. truthy (dateTime (start e))) events)"
    by (simp add: R_def L_def length_sortBy)
  have mem: "(Some a, Some b) \<in> set R"
    if "e \<in> set events" "truthy (dateTime (start e))"
       "newDateOpt h (dateTime (start e)) = Some a" "newDateOpt h (dateTime (end' e)) = Some b"
    for e a b
  proof -
    from that have "(Some a, Some b) \<in> set L" by (force simp: L_def)
    then show ?thesis by (simp add: R_def set_sortBy)
  qed
  have "length (new @ last) \<le> length R + 1" using len by (simp add: last_def)
  moreover have "\<exists>k. s = \<lparr>slotStart = Some k, slotEnd = Some (k + int n * 60000)\<rparr> \<and> ds \<le> k \<and>
                (\<forall>e \<in> set events. \<forall>a b.
                   truthy (dateTime (start e)) \<and>
                   newDateOpt h (dateTime (start e)) = Some a \<and>
                   newDateOpt h (dateTime (end' e)) = Some b \<longrightarrow>
                   \<not> max k a < min (k + int n * 60000) b)"
    if "s \<in> set (new @ last)" for s
  proof -
    from that consider "s \<in> set new" | "s \<in> set last" by auto
    then show ?thesis
    proof cases
      case 1
      with sl obtain k where k: "s = \<lparr>slotStart = Some k, slotEnd = Some (k + int n * 60000)\<rparr>"
        "ds \<le> k"
        "\<forall>e \<in> set R. \<not> max k (the (fst e)) < min (k + int n * 60000) (the (snd e))"
        by blast
      have "\<not> max k a < min (k + int n * 60000) b"
        if "e \<in> set events" "truthy (dateTime (start e))"
           "newDateOpt h (dateTime (start e)) = Some a" "newDateOpt h (dateTime (end' e)) = Some b"
        for e a b
        using k(3) mem[OF that] by fastforce
      with k(1,2) show ?thesis by blast
    next
      case 2
      then have s: "s = \<lparr>slotStart = Some c', slotEnd = Some (c' + int n * 60000)\<rparr>"
        by (auto simp: last_def split: if_splits)
      have "\<not> max c' a < min (c' + int n * 60000) b"
        if "e \<in> set events" "truthy (dateTime (start e))"
           "newDateOpt h (dateTime (start e)) = Some a" "newDateOpt h (dateTime (end' e)) = Some b"
        for e a b
        using ends mem[OF that] by fastforce
      with s le show ?thesis by blast
    qed
  qed
  ultimately show ?thesis using res lenR by simp
qed

subsection \<open>The merge of an update\<close>

text \<open>
  C6.  A request with a new start and a new end is meant to give a payload with both.  For
  \<open>Team Sync\<close> moved to \<open>today at 2pm\<close> until \<open>today at 4pm\<close> the payload has the
  new start and no end at all: the branch for a new start sets an end only when the request
  has neither an end nor a duration, and the branch for a new end is its \<open>else\<close>.
\<close>

theorem update_drops_new_end:
  "parseDateTime utcHost ''today at 4pm'' = Some 1705334400000 \<and>
   updateEventData utcHost move2pmTo4pm teamSync =
     Inr \<lparr>data_summary = Some ''Team Sync'', data_description = None, data_attendees = None,
          data_location = None,
          data_start = Some \<lparr>dateTime = Some ''2024-01-15T14:00:00.000Z'', date = None,
                              timeZone = Some ''UTC''\<rparr>,
          data_end = None, data_reminders = None\<rparr> \<and>
   snd (updateCalendarEvent utcHost exampleBackend move2pmTo4pm [teamSync, syncWithBob]) =
     [Get ''7kukuqrfedlm2f9t'',
      Update ''7kukuqrfedlm2f9t''
        \<lparr>data_summary = Some ''Team Sync'', data_description = None, data_attendees = None,
         data_location = None,
         data_start = Some \<lparr>dateTime = Some ''2024-01-15T14:00:00.000Z'', date = None,
                             timeZone = Some ''UTC''\<rparr>,
         data_end = None, data_reminders = None\<rparr>]"
  by code_simp

text \<open>So it is for every request with a new start, a new end and no duration.\<close>

lemma update_start_and_end_no_end:
  assumes "truthy (arg_startTime args)" "truthy (arg_endTime args)" "\<not> truthy (arg_duration args)"
    and "updateEventData h args ex = Inr d"
  shows "data_end d = None"
  using assms
  by (auto simp: updateEventData_def timeUpdates_def durationOverride_def mergedFields_def Let_def
           split: sum.splits)

text \<open>The other fields are merged as the claim has it.\<close>

lemma update_merges_fields:
  assumes "updateEventData h args ex = Inr d"
  shows "data_summary d = (if truthy (arg_summary args) then arg_summary args
                           else Some (summary ex)) \<and>
         data_description d = (if truthy (arg_description args) then arg_description args
                               else description ex) \<and>
         data_attendees d = (case arg_attendees args of
                               Some as \<Rightarrow> Some (map (\<lambda>e. \<lparr>email = e, displayName = None\<rparr>) as)
                             | None \<Rightarrow> attendees ex) \<and>
         data_location d = (if truthy (arg_location args) then arg_location args
                            else if truthy (location ex) then location ex else None)"
  using assms
  by (auto simp: updateEventData_def timeUpdates_def durationOverride_def mergedFields_def Let_def
                 orElse_def
           split: sum.splits if_splits)

subsection \<open>Dispatch on malformed arguments\<close>

lemma emptyArgs_validation:
  "validateEventCreation emptyArgs = [MissingTitle, MissingStartTime, MissingEndOrDuration]"
  "validateEventUpdate emptyArgs = [MissingIdentification, MissingUpdateDetails]"
  "validateEventDelete emptyArgs = [MissingIdentification]"
  "parseDurationToMinutes (orDefault (arg_duration emptyArgs) ''1 hour'') = Inr (Some 60)"
  "arg_timeframe emptyArgs = None" "arg_filter emptyArgs = None" "arg_focusArea emptyArgs = None"
  "arg_recipients emptyArgs = None"
  by code_simp+

lemma findAvailableTimeSlots_empty:
  "\<exists>r. findAvailableTimeSlots h emptyArgs events = Inr r"
  using emptyArgs_validation(4)
  by (simp add: findAvailableTimeSlots_def Let_def split: prod.splits)

text \<open>
  The substitution does its part.  When the arguments are a string that is not JSON, the
  dispatcher goes on with an empty argument bag, and for these operations it raises
  nothing: creating, updating and deleting reply with their clarification, which lists what
  is missing; the analysis, the recommendations, the listing and the search for slots reply
  as they do on an empty argument bag, from their defaults.
\<close>

lemma dispatch_malformed_json:
  assumes "jsonParse s = None"
  shows
   "parseArguments jsonParse (ArgString s) = JsonObject emptyArgs \<and>
    handleFunctionCall h be jsonParse \<lparr>name = ''create_calendar_event'', arguments = ArgString s\<rparr>
      events stats =
      Inr (ClarifyCreate [MissingTitle, MissingStartTime, MissingEndOrDuration], []) \<and>
    handleFunctionCall h be jsonParse \<lparr>name = ''update_calendar_event'', arguments = ArgString s\<rparr>
      events stats =
      Inr (ClarifyUpdate [MissingIdentification, MissingUpdateDetails], []) \<and>
    handleFunctionCall h be jsonParse \<lparr>name = ''delete_calendar_event'', arguments = ArgString s\<rparr>
      events stats =
      Inr (ClarifyDelete [MissingIdentification], []) \<and>
    handleFunctionCall h be jsonParse \<lparr>name = ''analyze_meeting_time'', arguments = ArgString s\<rparr>
      events stats =
      Inr (MeetingAnalysis stats, []) \<and>
    handleFunctionCall h be jsonParse
      \<lparr>name = ''provide_recommendations'', arguments = ArgString s\<rparr> events stats =
      Inr (Recommendations stats None, []) \<and>
    handleFunctionCall h be jsonParse \<lparr>name = ''list_upcoming_events'', arguments = ArgString s\<rparr>
      events stats =
      Inr (if events = [] then NoEventsFound else UpcomingEvents events, []) \<and>
    (\<exists>r. findAvailableTimeSlots h emptyArgs events = Inr r \<and>
          handleFunctionCall h be jsonParse
            \<lparr>name = ''find_available_time_slots'', arguments = ArgString s\<rparr> events stats =
          Inr (r, []))"
proof -
  from assms have p: "parseArguments jsonParse (ArgString s) = JsonObject emptyArgs"
    by (simp add: parseArguments_def)
  obtain r where r: "findAvailableTimeSlots h emptyArgs events = Inr r"
    using findAvailableTimeSlots_empty by blast
  show ?thesis
    using p r emptyArgs_validation
    by (simp add: handleFunctionCall_def knownNames_def createCalendarEvent_def
          updateCalendarEvent_def deleteCalendarEvent_def analyzeMeetingTime_def
          provideRecommendations_def listUpcomingEvents_def)
qed

text \<open>
  On the empty argument bag the conflict finder and the email drafts raise a
  \<open>TypeError\<close>, whatever the host, the events and the malformed string are.
\<close>

lemma dispatch_malformed_json_raises:
  assumes "jsonParse s = None"
  shows "handleFunctionCall h be jsonParse \<lparr>name = ''find_conflicts'', arguments = ArgString s\<rparr>
           events stats = Inl TypeError \<and>
         handleFunctionCall h be jsonParse
           \<lparr>name = ''generate_email_drafts'', arguments = ArgString s\<rparr> events stats =
           Inl TypeError"
  using assms emptyArgs_validation
  by (simp add: handleFunctionCall_def knownNames_def parseArguments_def findConflicts_def
        generateEmailDrafts_def)

text \<open>
  C10.  When the arguments are a string that is not JSON, the dispatcher is meant not to
  raise: it substitutes an empty argument bag, and the named operation then answers with
  its reply for missing information.  With the arguments \<open>{timeframe: today\<close>, which no
  JSON parser accepts, \<open>delete_calendar_event\<close> does answer so; \<open>find_conflicts\<close>
  and \<open>generate_email_drafts\<close> raise a \<open>TypeError\<close>, which leaves the dispatcher: the
  one calls \<open>toLowerCase\<close> on the timeframe and the other \<open>forEach\<close> on the recipients,
  neither of which the empty argument bag has.
\<close>

theorem dispatch_raises_on_malformed_json:
  "exampleJson ''{timeframe: today'' = None \<and>
   parseArguments exampleJson (ArgString ''{timeframe: today'') = JsonObject emptyArgs \<and>
   handleFunctionCall utcHost exampleBackend exampleJson
     \<lparr>name = ''delete_calendar_event'', arguments = ArgString ''{timeframe: today''\<rparr>
     [teamSync] exampleStats = Inr (ClarifyDelete [MissingIdentification], []) \<and>
   handleFunctionCall utcHost exampleBackend exampleJson
     \<lparr>name = ''find_conflicts'', arguments = ArgString ''{timeframe: today''\<rparr>
     [teamSync] exampleStats = Inl TypeError \<and>
   handleFunctionCall utcHost exampleBackend exampleJson
     \<lparr>name = ''generate_email_drafts'', arguments = ArgString ''{timeframe: today''\<rparr>
     [teamSync] exampleStats = Inl TypeError"
  by code_simp

end
